theory Spec2Isabelle
  imports Complex_Main "HOL-Library.Word"
begin

section \<open>Fault sources of awp-odc-os: \<open>src/io/Sources.cpp\<close>\<close>

text \<open>
  The file holds three things: the constructor of \<open>odc::io::Sources\<close>, the free function
  \<open>inisource\<close> (load the rupture file, keep the nodes of the calling process) and the
  method \<open>addsrc\<close> (subtract the rupture samples from the stress field).

  Conventions of the embedding.
  \<^item> \<open>int\<close> and \<open>int_pt\<close> values are HOL integers. Signed overflow is undefined in C, so
    the model describes the runs in which no coordinate or index computation overflows.
  \<^item> A C array is a list, \<open>a[k]\<close> is \<open>a ! k\<close> and \<open>a[k] = v\<close> is \<open>a[k := v]\<close>. An access
    outside the allocated range is undefined in C; the theorems carry the hypotheses
    (\<open>maxdim = 3\<close>, \<open>READ_STEP \<le> NST\<close>, window position inside the window) under which
    every access of the run is in range.
  \<^item> A pointer that may be \<open>NULL\<close> is an \<open>option\<close>.
  \<^item> A \<open>float\<close> is kept as its 32-bit pattern while it is read and copied. \<open>addsrc\<close>,
    which computes with floats, is polymorphic in the type of the values and takes the
    three operations it uses (subtraction, multiplication, division) as a parameter, so
    what is proved of it holds for every arithmetic, the rounding one of the machine
    included.
  \<^item> Calls into the C library and into \<open>odc::data\<close> are recorded, in order, as events.
\<close>

subsection \<open>Data\<close>

type_synonym float = "32 word"

text \<open>A file is given twice: as the sequence of 4-byte items that \<open>fread\<close> delivers, and as
  the sequence of numbers that \<open>fscanf\<close> converts, each with the conversion that accepts it
  (\<open>%d\<close> for \<open>IntTok\<close>, \<open>%f\<close> for \<open>FloatTok\<close>). Binary mode uses the first view, text mode
  the second.\<close>

datatype token = IntTok int | FloatTok float

record disk_file =
  items :: "32 word list"
  tokens :: "token list"

text \<open>What \<open>inisource\<close> takes from outside its parameters: the static members of
  \<open>odc::parallel::Mpi\<close>, the file system as \<open>fopen\<close> sees it, and the value found in
  storage that was never written (the arrays returned by \<open>odc::data::Alloc1P\<close> and
  \<open>Alloc1D\<close>, and the local array \<open>tmpsrc\<close>).\<close>

record env =
  m_rank :: int
  m_startX :: int
  m_rangeX :: int
  m_startY :: int
  m_rangeY :: int
  m_startZ :: int
  m_rangeZ :: int
  fopen :: "string \<Rightarrow> disk_file option"
  uninit_int :: int
  uninit_float :: float

datatype event =
    Ev_Alloc1P int
  | Ev_Alloc1D int
  | Ev_Delloc1P
  | Ev_Delloc1D
  | Ev_fopen string
  | Ev_fread nat
  | Ev_fscanf
  | Ev_fclose
  | Ev_printf string
  | Ev_cerr string

text \<open>The nine output parameters of \<open>inisource\<close>; the constructor passes the addresses of the
  members of the same names.\<close>

record 'f sources =
  m_srcProc :: int
  m_nPsrc :: int
  m_ptpSrc :: "int list option"
  m_ptAxx :: "'f list option"
  m_ptAyy :: "'f list option"
  m_ptAzz :: "'f list option"
  m_ptAxz :: "'f list option"
  m_ptAyz :: "'f list option"
  m_ptAxy :: "'f list option"

record outcome =
  ret :: int
  outs :: "float sources"
  trace :: "event list"

text \<open>The local variables of the reading loops: the stream position, the two scratch
  buffers, the catalog arrays and the calls made so far.\<close>

record 's loader =
  stream :: 's
  tmpsrc :: "int list"
  tmpta :: "float list"
  tpsrc :: "int list"
  taxx :: "float list"
  tayy :: "float list"
  tazz :: "float list"
  taxz :: "float list"
  tayz :: "float list"
  taxy :: "float list"
  calls :: "event list"

text \<open>The local variables of the copying loop; \<open>kk\<close> is the counter \<open>k\<close>.\<close>

record copier =
  kk :: nat
  tpsrcp :: "int list"
  taxxp :: "float list"
  tayyp :: "float list"
  tazzp :: "float list"
  taxzp :: "float list"
  tayzp :: "float list"
  taxyp :: "float list"

subsection \<open>Sub-domain bounds (lines 94 to 99)\<close>

definition nbx :: "env \<Rightarrow> int" where "nbx e = m_startX e + 2"
definition nex :: "env \<Rightarrow> int" where "nex e = nbx e + m_rangeX e - 1"
definition nby :: "env \<Rightarrow> int" where "nby e = m_startY e + 2"
definition ney :: "env \<Rightarrow> int" where "ney e = nby e + m_rangeY e - 1"
definition nbz :: "env \<Rightarrow> int" where "nbz e = m_startZ e"
definition nez :: "env \<Rightarrow> int" where "nez e = nbz e + m_rangeZ e - 1"

subsection \<open>Storage and the C library\<close>

text \<open>\<open>odc::data::Alloc1P\<close> and \<open>Alloc1D\<close> are defined in another file: here, an array of the
  length asked for, with the content of unwritten storage.\<close>

definition Alloc1P :: "env \<Rightarrow> int \<Rightarrow> int list" where
  "Alloc1P e n = replicate (nat n) (uninit_int e)"

definition Alloc1D :: "env \<Rightarrow> int \<Rightarrow> float list" where
  "Alloc1D e n = replicate (nat n) (uninit_float e)"

text \<open>\<open>fread(ptr, 4, nmemb, file)\<close> on a stream of 4-byte items: the items read overwrite
  the front of the buffer, the rest of the buffer stays; the result is the buffer, the
  number of items read and the stream after them.\<close>

definition fread :: "('a \<Rightarrow> 'b) \<Rightarrow> 'b list \<Rightarrow> nat \<Rightarrow> 'a list \<Rightarrow> 'b list \<times> nat \<times> 'a list" where
  "fread conv ptr nmemb s =
     (let got = map conv (take nmemb s)
      in (got @ drop (length got) ptr, length got, drop nmemb s))"

text \<open>\<open>fscanf\<close> with \<open>n\<close> conversions of one kind: it converts tokens until one does not
  match or the input ends, and leaves the unmatched token in the stream.\<close>

fun as_int :: "token \<Rightarrow> int option" where
  "as_int (IntTok n) = Some n"
| "as_int (FloatTok f) = None"

fun as_float :: "token \<Rightarrow> float option" where
  "as_float (FloatTok f) = Some f"
| "as_float (IntTok n) = None"

fun fscanf :: "(token \<Rightarrow> 'b option) \<Rightarrow> nat \<Rightarrow> token list \<Rightarrow> 'b list \<times> token list" where
  "fscanf conv 0 ts = ([], ts)"
| "fscanf conv (Suc n) [] = ([], [])"
| "fscanf conv (Suc n) (t # ts) =
     (case conv t of
        None \<Rightarrow> ([], t # ts)
      | Some v \<Rightarrow> (let (vs, r) = fscanf conv n ts in (v # vs, r)))"

text \<open>A conversion that succeeded stores through its pointer; one that did not leaves the
  target as it was.\<close>

definition store :: "'b list \<Rightarrow> nat \<Rightarrow> 'b list \<Rightarrow> nat \<Rightarrow> 'b list" where
  "store a idx vs c = (if c < length vs then a[idx := vs ! c] else a)"

subsection \<open>Reading the catalog (lines 156 to 193)\<close>

text \<open>Binary mode, the body of the loop over \<open>j\<close> (lines 167 to 172).\<close>

definition copy_sample :: "int \<Rightarrow> nat \<Rightarrow> nat \<Rightarrow> 's loader \<Rightarrow> 's loader" where
  "copy_sample READ_STEP i j st =
     st\<lparr>taxx := (taxx st)[nat (int i * READ_STEP + int j) := tmpta st ! (j * 6)],
        tayy := (tayy st)[nat (int i * READ_STEP + int j) := tmpta st ! (j * 6 + 1)],
        tazz := (tazz st)[nat (int i * READ_STEP + int j) := tmpta st ! (j * 6 + 2)],
        taxz := (taxz st)[nat (int i * READ_STEP + int j) := tmpta st ! (j * 6 + 3)],
        tayz := (tayz st)[nat (int i * READ_STEP + int j) := tmpta st ! (j * 6 + 4)],
        taxy := (taxy st)[nat (int i * READ_STEP + int j) := tmpta st ! (j * 6 + 5)]\<rparr>"

text \<open>Binary mode, the body of the loop over \<open>i\<close> (lines 160 to 174). The second \<open>fread\<close>
  is called only when the first returned a non-zero count.\<close>

definition load_binary_node ::
  "int \<Rightarrow> int \<Rightarrow> int \<Rightarrow> int \<Rightarrow> nat \<Rightarrow> 32 word list loader \<Rightarrow> 32 word list loader" where
  "load_binary_node READ_STEP NST maxdim NZ i st =
     (let (src, n1, s1) = fread sint (tmpsrc st) 3 (stream st);
          st1 = st\<lparr>stream := s1, tmpsrc := src, calls := calls st @ [Ev_fread 3]\<rparr>
      in if n1 = 0 then st1
         else
           let (ta, n2, s2) = fread id (tmpta st1) (nat (NST * 6)) s1;
               st2 = st1\<lparr>stream := s2, tmpta := ta,
                         calls := calls st1 @ [Ev_fread (nat (NST * 6))]\<rparr>
           in if n2 = 0 then st2
              else fold (copy_sample READ_STEP i) [0..<nat READ_STEP]
                     (st2\<lparr>tpsrc := (tpsrc st2)
                             [nat (int i * maxdim) := src ! 0,
                              nat (int i * maxdim + 1) := src ! 1,
                              nat (int i * maxdim + 2) := NZ + 1 - src ! 2]\<rparr>))"

definition load_binary ::
  "int \<Rightarrow> int \<Rightarrow> int \<Rightarrow> int \<Rightarrow> int \<Rightarrow> 32 word list loader \<Rightarrow> 32 word list loader" where
  "load_binary NSRC READ_STEP NST maxdim NZ st =
     fold (load_binary_node READ_STEP NST maxdim NZ) [0..<nat NSRC] st"

text \<open>Text mode, the body of the loop over \<open>j\<close> (lines 187 to 190): one \<open>fscanf\<close> with six
  \<open>%f\<close> conversions, whose targets are the six table cells.\<close>

definition scan_sample :: "int \<Rightarrow> nat \<Rightarrow> nat \<Rightarrow> token list loader \<Rightarrow> token list loader" where
  "scan_sample READ_STEP i j st =
     (let (vs, s1) = fscanf as_float 6 (stream st);
          ix = nat (int i * READ_STEP + int j)
      in st\<lparr>stream := s1,
            taxx := store (taxx st) ix vs 0,
            tayy := store (tayy st) ix vs 1,
            tazz := store (tazz st) ix vs 2,
            taxz := store (taxz st) ix vs 3,
            tayz := store (tayz st) ix vs 4,
            taxy := store (taxy st) ix vs 5,
            calls := calls st @ [Ev_fscanf]\<rparr>)"

text \<open>Text mode, the body of the loop over \<open>i\<close> (lines 181 to 192). The result of \<open>fscanf\<close>
  is not looked at: the coordinates are taken from \<open>tmpsrc\<close> whatever was converted.\<close>

definition load_text_node ::
  "int \<Rightarrow> int \<Rightarrow> int \<Rightarrow> nat \<Rightarrow> token list loader \<Rightarrow> token list loader" where
  "load_text_node READ_STEP maxdim NZ i st =
     (let (vs, s1) = fscanf as_int 3 (stream st);
          src = vs @ drop (length vs) (tmpsrc st)
      in fold (scan_sample READ_STEP i) [0..<nat READ_STEP]
           (st\<lparr>stream := s1, tmpsrc := src,
               tpsrc := (tpsrc st)
                 [nat (int i * maxdim) := src ! 0,
                  nat (int i * maxdim + 1) := src ! 1,
                  nat (int i * maxdim + 2) := NZ + 1 - src ! 2],
               calls := calls st @ [Ev_fscanf]\<rparr>))"

definition load_text ::
  "int \<Rightarrow> int \<Rightarrow> int \<Rightarrow> int \<Rightarrow> token list loader \<Rightarrow> token list loader" where
  "load_text NSRC READ_STEP maxdim NZ st =
     fold (load_text_node READ_STEP maxdim NZ) [0..<nat NSRC] st"

subsection \<open>Keeping the nodes of the calling process (lines 207 to 266)\<close>

text \<open>The test of lines 210 to 211, repeated on lines 231 to 232.\<close>

definition owns :: "env \<Rightarrow> int \<Rightarrow> int list \<Rightarrow> nat \<Rightarrow> bool" where
  "owns e maxdim tp i =
     (tp ! nat (int i * maxdim) \<ge> nbx e \<and> tp ! nat (int i * maxdim) \<le> nex e \<and>
      tp ! nat (int i * maxdim + 1) \<ge> nby e \<and> tp ! nat (int i * maxdim + 1) \<le> ney e \<and>
      tp ! nat (int i * maxdim + 2) \<ge> nbz e \<and> tp ! nat (int i * maxdim + 2) \<le> nez e)"

text \<open>First pass: the state is the pair \<open>(srcproc, npsrc)\<close>.\<close>

definition count_node :: "env \<Rightarrow> int \<Rightarrow> int list \<Rightarrow> nat \<Rightarrow> int \<times> int \<Rightarrow> int \<times> int" where
  "count_node e maxdim tp i s =
     (if owns e maxdim tp i then (m_rank e, snd s + 1) else s)"

definition count_owned :: "env \<Rightarrow> int \<Rightarrow> int \<Rightarrow> int list \<Rightarrow> int \<times> int" where
  "count_owned e NSRC maxdim tp = fold (count_node e maxdim tp) [0..<nat NSRC] (- 1, 0)"

text \<open>Second pass, the body of the loop over \<open>j\<close> (lines 239 to 244).\<close>

definition copy_row :: "int \<Rightarrow> 's loader \<Rightarrow> nat \<Rightarrow> nat \<Rightarrow> copier \<Rightarrow> copier" where
  "copy_row READ_STEP cat i j c =
     c\<lparr>taxxp := (taxxp c)[nat (int (kk c) * READ_STEP + int j) :=
                  taxx cat ! nat (int i * READ_STEP + int j)],
       tayyp := (tayyp c)[nat (int (kk c) * READ_STEP + int j) :=
                  tayy cat ! nat (int i * READ_STEP + int j)],
       tazzp := (tazzp c)[nat (int (kk c) * READ_STEP + int j) :=
                  tazz cat ! nat (int i * READ_STEP + int j)],
       taxzp := (taxzp c)[nat (int (kk c) * READ_STEP + int j) :=
                  taxz cat ! nat (int i * READ_STEP + int j)],
       tayzp := (tayzp c)[nat (int (kk c) * READ_STEP + int j) :=
                  tayz cat ! nat (int i * READ_STEP + int j)],
       taxyp := (taxyp c)[nat (int (kk c) * READ_STEP + int j) :=
                  taxy cat ! nat (int i * READ_STEP + int j)]\<rparr>"

text \<open>Second pass, the body of the loop over \<open>i\<close> (lines 231 to 247).\<close>

definition copy_node :: "env \<Rightarrow> int \<Rightarrow> int \<Rightarrow> 's loader \<Rightarrow> nat \<Rightarrow> copier \<Rightarrow> copier" where
  "copy_node e READ_STEP maxdim cat i c =
     (if owns e maxdim (tpsrc cat) i
      then
        let c1 = c\<lparr>tpsrcp := (tpsrcp c)
                     [nat (int (kk c) * maxdim) := tpsrc cat ! nat (int i * maxdim) - nbx e + 1,
                      nat (int (kk c) * maxdim + 1) :=
                        tpsrc cat ! nat (int i * maxdim + 1) - nby e + 1,
                      nat (int (kk c) * maxdim + 2) :=
                        tpsrc cat ! nat (int i * maxdim + 2) - nbz e + 1]\<rparr>;
            c2 = fold (copy_row READ_STEP cat i) [0..<nat READ_STEP] c1
        in c2\<lparr>kk := kk c2 + 1\<rparr>
      else c)"

definition copy_owned :: "env \<Rightarrow> int \<Rightarrow> int \<Rightarrow> int \<Rightarrow> 's loader \<Rightarrow> int \<Rightarrow> copier" where
  "copy_owned e NSRC READ_STEP maxdim cat npsrc =
     fold (copy_node e READ_STEP maxdim cat) [0..<nat NSRC]
       \<lparr>kk = 0,
        tpsrcp = Alloc1P e (npsrc * maxdim),
        taxxp = Alloc1D e (npsrc * READ_STEP),
        tayyp = Alloc1D e (npsrc * READ_STEP),
        tazzp = Alloc1D e (npsrc * READ_STEP),
        taxzp = Alloc1D e (npsrc * READ_STEP),
        tayzp = Alloc1D e (npsrc * READ_STEP),
        taxyp = Alloc1D e (npsrc * READ_STEP)\<rparr>"

text \<open>Both passes, the release of the catalog and the values stored through the nine
  output pointers (lines 207 to 266), with the calls made on the way.\<close>

definition resolve :: "env \<Rightarrow> int \<Rightarrow> int \<Rightarrow> int \<Rightarrow> 's loader \<Rightarrow> float sources \<times> event list" where
  "resolve e NSRC READ_STEP maxdim cat =
     (let (srcproc, npsrc) = count_owned e NSRC maxdim (tpsrc cat);
          frees = replicate 6 Ev_Delloc1D @ [Ev_Delloc1P]
      in if npsrc > 0
         then
           let c = copy_owned e NSRC READ_STEP maxdim cat npsrc
           in (\<lparr>m_srcProc = srcproc, m_nPsrc = npsrc,
                m_ptpSrc = Some (tpsrcp c),
                m_ptAxx = Some (taxxp c), m_ptAyy = Some (tayyp c), m_ptAzz = Some (tazzp c),
                m_ptAxz = Some (taxzp c), m_ptAyz = Some (tayzp c), m_ptAxy = Some (taxyp c)\<rparr>,
               Ev_Alloc1P (npsrc * maxdim) # replicate 6 (Ev_Alloc1D (npsrc * READ_STEP)) @ frees)
         else
           (\<lparr>m_srcProc = srcproc, m_nPsrc = npsrc,
             m_ptpSrc = None,
             m_ptAxx = None, m_ptAyy = None, m_ptAzz = None,
             m_ptAxz = None, m_ptAyz = None, m_ptAxy = None\<rparr>,
            frees))"

subsection \<open>\<open>inisource\<close> (lines 78 to 273) and the constructor (lines 26 to 40)\<close>

text \<open>The locals after the allocations of lines 128 to 136 and, in binary mode, line 146.\<close>

definition allocated :: "env \<Rightarrow> int \<Rightarrow> int \<Rightarrow> int \<Rightarrow> 's \<Rightarrow> float list \<Rightarrow> event list \<Rightarrow> 's loader" where
  "allocated e NSRC READ_STEP maxdim s ta evs =
     \<lparr>stream = s,
      tmpsrc = replicate 3 (uninit_int e),
      tmpta = ta,
      tpsrc = Alloc1P e (NSRC * maxdim),
      taxx = Alloc1D e (NSRC * READ_STEP),
      tayy = Alloc1D e (NSRC * READ_STEP),
      tazz = Alloc1D e (NSRC * READ_STEP),
      taxz = Alloc1D e (NSRC * READ_STEP),
      tayz = Alloc1D e (NSRC * READ_STEP),
      taxy = Alloc1D e (NSRC * READ_STEP),
      calls = evs\<rparr>"

definition cant_open :: "string \<Rightarrow> string" where
  "cant_open INSRC = ''can't open file '' @ INSRC @ [CHR 0x0A]"

definition not_implemented :: string where
  "not_implemented =
     ''Error: IFAULT == 2 is not implemented in CPU version.  Please use IFAULT=1 instead''
     @ [CHR 0x0A]"

text \<open>\<open>None\<close> stands for the one path with no defined behaviour of its own: with
  \<open>IFAULT < 0\<close> neither \<open>fopen\<close> is called and \<open>file\<close> is tested uninitialised.\<close>

definition inisource ::
  "env \<Rightarrow> int \<Rightarrow> int \<Rightarrow> int \<Rightarrow> int \<Rightarrow> int \<Rightarrow> int \<Rightarrow> string \<Rightarrow> string \<Rightarrow> float sources
     \<Rightarrow> outcome option" where
  "inisource e IFAULT NSRC READ_STEP NST maxdim NZ INSRC INSRC_I2 out =
     (if NSRC < 1 then Some \<lparr>ret = 0, outs = out, trace = []\<rparr>
      else if IFAULT \<le> 1 then
        (let evs = Ev_Alloc1P (NSRC * maxdim) # replicate 6 (Ev_Alloc1D (NSRC * READ_STEP))
         in if IFAULT = 1 then
              (case fopen e INSRC of
                 None \<Rightarrow>
                   Some \<lparr>ret = 0, outs = out,
                         trace = evs @ [Ev_fopen INSRC, Ev_Alloc1D (NST * 6), Ev_printf (cant_open INSRC)]\<rparr>
               | Some f \<Rightarrow>
                   let st = load_binary NSRC READ_STEP NST maxdim NZ
                              (allocated e NSRC READ_STEP maxdim (items f) (Alloc1D e (NST * 6))
                                 (evs @ [Ev_fopen INSRC, Ev_Alloc1D (NST * 6)]));
                       (res, evs') = resolve e NSRC READ_STEP maxdim st
                   in Some \<lparr>ret = 0, outs = res,
                            trace = calls st @ [Ev_Delloc1D, Ev_fclose] @ evs'\<rparr>)
            else if IFAULT = 0 then
              (case fopen e INSRC of
                 None \<Rightarrow>
                   Some \<lparr>ret = 0, outs = out,
                         trace = evs @ [Ev_fopen INSRC, Ev_printf (cant_open INSRC)]\<rparr>
               | Some f \<Rightarrow>
                   let st = load_text NSRC READ_STEP maxdim NZ
                              (allocated e NSRC READ_STEP maxdim (tokens f) []
                                 (evs @ [Ev_fopen INSRC]));
                       (res, evs') = resolve e NSRC READ_STEP maxdim st
                   in Some \<lparr>ret = 0, outs = res, trace = calls st @ [Ev_fclose] @ evs'\<rparr>)
            else None)
      else if IFAULT = 2 then Some \<lparr>ret = 1, outs = out, trace = [Ev_cerr not_implemented]\<rparr>
      else Some \<lparr>ret = 0, outs = out, trace = []\<rparr>)"

text \<open>The constructor calls \<open>inisource\<close> with \<open>maxdim = 3\<close> and the addresses of its nine
  members, and drops the value returned; \<open>this\<close> is what the members held before.\<close>

definition Sources ::
  "env \<Rightarrow> int \<Rightarrow> int \<Rightarrow> int \<Rightarrow> int \<Rightarrow> int \<Rightarrow> int \<Rightarrow> int \<Rightarrow> int \<Rightarrow> string \<Rightarrow> string
     \<Rightarrow> float sources \<Rightarrow> float sources option" where
  "Sources e i_iFault i_nSrc i_readStep i_nSt i_nZ i_nXt i_nYt i_nZt i_inSrc i_inSrcI2 this =
     map_option outs
       (inisource e i_iFault i_nSrc i_readStep i_nSt 3 i_nZ i_inSrc i_inSrcI2 this)"

subsection \<open>\<open>Sources::addsrc\<close> (lines 303 to 348)\<close>

text \<open>The branch compiled without \<open>YASK\<close> (lines 339 to 344). A patch is reduced to the six
  stress arrays of its \<open>soa\<close> member, each a function of the three local indices, and
  \<open>PatchDecomp\<close> to its patches and the four look-ups \<open>addsrc\<close> calls; \<open>dim'\<close> is the
  parameter \<open>dim\<close>.\<close>

text \<open>The three float operations of \<open>addsrc\<close>.\<close>

record 'f fpu =
  fsub :: "'f \<Rightarrow> 'f \<Rightarrow> 'f"
  fmul :: "'f \<Rightarrow> 'f \<Rightarrow> 'f"
  fdiv :: "'f \<Rightarrow> 'f \<Rightarrow> 'f"

record 'f soa =
  m_stressXX :: "int \<Rightarrow> int \<Rightarrow> int \<Rightarrow> 'f"
  m_stressYY :: "int \<Rightarrow> int \<Rightarrow> int \<Rightarrow> 'f"
  m_stressZZ :: "int \<Rightarrow> int \<Rightarrow> int \<Rightarrow> 'f"
  m_stressXZ :: "int \<Rightarrow> int \<Rightarrow> int \<Rightarrow> 'f"
  m_stressYZ :: "int \<Rightarrow> int \<Rightarrow> int \<Rightarrow> 'f"
  m_stressXY :: "int \<Rightarrow> int \<Rightarrow> int \<Rightarrow> 'f"

record 'f PatchDecomp =
  globalToPatch :: "int \<Rightarrow> int \<Rightarrow> int \<Rightarrow> int"
  globalToLocalX :: "int \<Rightarrow> int \<Rightarrow> int \<Rightarrow> int"
  globalToLocalY :: "int \<Rightarrow> int \<Rightarrow> int \<Rightarrow> int"
  globalToLocalZ :: "int \<Rightarrow> int \<Rightarrow> int \<Rightarrow> int"
  m_patches :: "int \<Rightarrow> 'f soa"

text \<open>\<open>a[x][y][z] = v\<close>.\<close>

definition assign3 :: "(int \<Rightarrow> int \<Rightarrow> int \<Rightarrow> 'f) \<Rightarrow> int \<Rightarrow> int \<Rightarrow> int \<Rightarrow> 'f \<Rightarrow> int \<Rightarrow> int \<Rightarrow> int \<Rightarrow> 'f" where
  "assign3 a x y z v = a(x := (a x)(y := (a x y)(z := v)))"

text \<open>Lines 314 to 321: the patch and the local position of owned node \<open>j\<close>.\<close>

definition locate :: "'f sources \<Rightarrow> int \<Rightarrow> 'f PatchDecomp \<Rightarrow> nat \<Rightarrow> int \<times> int \<times> int \<times> int" where
  "locate this dim' pd j =
     (let idx = the (m_ptpSrc this) ! nat (int j * dim') - 1;
          idy = the (m_ptpSrc this) ! nat (int j * dim' + 1) - 1;
          idz = the (m_ptpSrc this) ! nat (int j * dim' + 2) - 1
      in (globalToPatch pd idx idy idz,
          globalToLocalX pd idx idy idz,
          globalToLocalY pd idx idy idz,
          globalToLocalZ pd idx idy idz))"

text \<open>The body of the loop (lines 314 to 344). The six arrays are distinct objects, so the
  six statements act on different fields of the patch.\<close>

definition addsrc_node ::
  "'f fpu \<Rightarrow> 'f sources \<Rightarrow> int \<Rightarrow> 'f \<Rightarrow> int \<Rightarrow> int \<Rightarrow> nat \<Rightarrow> 'f PatchDecomp \<Rightarrow> 'f PatchDecomp" where
  "addsrc_node u this i vtst READ_STEP dim' j pd =
     (let (patch_id, x, y, z) = locate this dim' pd j;
          p = m_patches pd patch_id;
          n = nat (int j * READ_STEP + i)
      in pd\<lparr>m_patches := (m_patches pd)(patch_id :=
           p\<lparr>m_stressXX := assign3 (m_stressXX p) x y z
                  (fsub u (m_stressXX p x y z) (fmul u vtst (the (m_ptAxx this) ! n))),
             m_stressYY := assign3 (m_stressYY p) x y z
                  (fsub u (m_stressYY p x y z) (fmul u vtst (the (m_ptAyy this) ! n))),
             m_stressZZ := assign3 (m_stressZZ p) x y z
                  (fsub u (m_stressZZ p x y z) (fmul u vtst (the (m_ptAzz this) ! n))),
             m_stressXZ := assign3 (m_stressXZ p) x y z
                  (fsub u (m_stressXZ p x y z) (fmul u vtst (the (m_ptAxz this) ! n))),
             m_stressYZ := assign3 (m_stressYZ p) x y z
                  (fsub u (m_stressYZ p x y z) (fmul u vtst (the (m_ptAyz this) ! n))),
             m_stressXY := assign3 (m_stressXY p) x y z
                  (fsub u (m_stressXY p x y z) (fmul u vtst (the (m_ptAxy this) ! n)))\<rparr>)\<rparr>)"

definition addsrc ::
  "'f fpu \<Rightarrow> 'f sources \<Rightarrow> int \<Rightarrow> 'f \<Rightarrow> 'f \<Rightarrow> int \<Rightarrow> int \<Rightarrow> int \<Rightarrow> 'f PatchDecomp \<Rightarrow> 'f PatchDecomp" where
  "addsrc u this i DH DT NST READ_STEP dim' pd =
     (let vtst = fdiv u DT (fmul u (fmul u DH DH) DH)
      in fold (addsrc_node u this i vtst READ_STEP dim') [0..<nat (m_nPsrc this)] pd)"

section \<open>Reading the arrays as records\<close>

text \<open>The definitions of this section are not taken from the source: they say, in the words
  of the specification, what the flat arrays hold, and the properties below compare the code
  with them.\<close>

subsection \<open>The catalog and the owned table\<close>

text \<open>The six inclusive comparisons of the membership test, the catalog indices that pass
  it (in catalog order), the local coordinates \<open>g - b + 1\<close> of a catalog node and the
  \<open>rs\<close> samples of node \<open>i\<close> in a channel table.\<close>

definition inside :: "env \<Rightarrow> int \<Rightarrow> int \<Rightarrow> int \<Rightarrow> bool" where
  "inside e x y z =
     (nbx e \<le> x \<and> x \<le> nex e \<and> nby e \<le> y \<and> y \<le> ney e \<and> nbz e \<le> z \<and> z \<le> nez e)"

definition own_ix :: "env \<Rightarrow> int list \<Rightarrow> nat \<Rightarrow> nat list" where
  "own_ix e tp n = filter (\<lambda>i. inside e (tp ! (i * 3)) (tp ! (i * 3 + 1)) (tp ! (i * 3 + 2))) [0..<n]"

definition local_pos :: "env \<Rightarrow> int list \<Rightarrow> nat \<Rightarrow> int list" where
  "local_pos e tp i =
     [tp ! (i * 3) - nbx e + 1, tp ! (i * 3 + 1) - nby e + 1, tp ! (i * 3 + 2) - nbz e + 1]"

definition row :: "nat \<Rightarrow> 'a list \<Rightarrow> nat \<Rightarrow> 'a list" where
  "row rs t i = map (\<lambda>j. t ! (i * rs + j)) [0..<rs]"

text \<open>A node with its global coordinates and its six sample rows; node \<open>i\<close> of the catalog;
  record \<open>q\<close> of the owned table of a process, moved back to global coordinates.\<close>

record node =
  gx :: int
  gy :: int
  gz :: int
  sxx :: "float list"
  syy :: "float list"
  szz :: "float list"
  sxz :: "float list"
  syz :: "float list"
  sxy :: "float list"

definition catalog_node :: "nat \<Rightarrow> 's loader \<Rightarrow> nat \<Rightarrow> node" where
  "catalog_node rs cat i =
     \<lparr>gx = tpsrc cat ! (i * 3), gy = tpsrc cat ! (i * 3 + 1), gz = tpsrc cat ! (i * 3 + 2),
      sxx = row rs (taxx cat) i, syy = row rs (tayy cat) i, szz = row rs (tazz cat) i,
      sxz = row rs (taxz cat) i, syz = row rs (tayz cat) i, sxy = row rs (taxy cat) i\<rparr>"

definition catalog_nodes :: "nat \<Rightarrow> 's loader \<Rightarrow> nat \<Rightarrow> node list" where
  "catalog_nodes rs cat n = map (catalog_node rs cat) [0..<n]"

definition owned_node :: "env \<Rightarrow> nat \<Rightarrow> float sources \<Rightarrow> nat \<Rightarrow> node" where
  "owned_node e rs s q =
     \<lparr>gx = the (m_ptpSrc s) ! (q * 3) + nbx e - 1,
      gy = the (m_ptpSrc s) ! (q * 3 + 1) + nby e - 1,
      gz = the (m_ptpSrc s) ! (q * 3 + 2) + nbz e - 1,
      sxx = row rs (the (m_ptAxx s)) q, syy = row rs (the (m_ptAyy s)) q,
      szz = row rs (the (m_ptAzz s)) q, sxz = row rs (the (m_ptAxz s)) q,
      syz = row rs (the (m_ptAyz s)) q, sxy = row rs (the (m_ptAxy s)) q\<rparr>"

definition owned_nodes :: "env \<Rightarrow> nat \<Rightarrow> float sources \<Rightarrow> node list" where
  "owned_nodes e rs s = map (owned_node e rs s) [0..<nat (m_nPsrc s)]"

definition in_subdomain :: "env \<Rightarrow> node \<Rightarrow> bool" where
  "in_subdomain e nd = inside e (gx nd) (gy nd) (gz nd)"

subsection \<open>The two file formats\<close>

text \<open>Binary: a record is three integers and \<open>nst\<close> samples of six floats. \<open>bin_pos\<close> is the
  coordinate triple the loader is to store for record \<open>i\<close> and \<open>bin_row\<close> the first \<open>rs\<close>
  samples of channel \<open>c\<close>.\<close>

definition bin_len :: "nat \<Rightarrow> nat" where
  "bin_len nst = 3 + nst * 6"

definition bin_pos :: "int \<Rightarrow> nat \<Rightarrow> 32 word list \<Rightarrow> nat \<Rightarrow> int list" where
  "bin_pos NZ nst s i =
     [sint (s ! (i * bin_len nst)), sint (s ! (i * bin_len nst + 1)),
      NZ + 1 - sint (s ! (i * bin_len nst + 2))]"

definition bin_row :: "nat \<Rightarrow> nat \<Rightarrow> nat \<Rightarrow> 32 word list \<Rightarrow> nat \<Rightarrow> float list" where
  "bin_row nst rs c s i = map (\<lambda>j. s ! (i * bin_len nst + 3 + j * 6 + c)) [0..<rs]"

text \<open>Text: a record is three integers and \<open>rs\<close> lines of six floats; \<open>text_records\<close> says
  that the tokens of the first \<open>n\<close> records have these kinds.\<close>

fun int_of :: "token \<Rightarrow> int" where
  "int_of (IntTok n) = n"
| "int_of (FloatTok f) = 0"

fun float_of :: "token \<Rightarrow> float" where
  "float_of (FloatTok f) = f"
| "float_of (IntTok n) = 0"

definition txt_len :: "nat \<Rightarrow> nat" where
  "txt_len rs = 3 + rs * 6"

definition txt_pos :: "int \<Rightarrow> nat \<Rightarrow> token list \<Rightarrow> nat \<Rightarrow> int list" where
  "txt_pos NZ rs ts i =
     [int_of (ts ! (i * txt_len rs)), int_of (ts ! (i * txt_len rs + 1)),
      NZ + 1 - int_of (ts ! (i * txt_len rs + 2))]"

definition txt_row :: "nat \<Rightarrow> nat \<Rightarrow> token list \<Rightarrow> nat \<Rightarrow> float list" where
  "txt_row rs c ts i = map (\<lambda>j. float_of (ts ! (i * txt_len rs + 3 + j * 6 + c))) [0..<rs]"

definition text_records :: "nat \<Rightarrow> nat \<Rightarrow> token list \<Rightarrow> bool" where
  "text_records rs n ts =
     (n * txt_len rs \<le> length ts \<and>
      (\<forall>i<n. (\<forall>c<3. as_int (ts ! (i * txt_len rs + c)) \<noteq> None) \<and>
             (\<forall>m<rs * 6. as_float (ts ! (i * txt_len rs + 3 + m)) \<noteq> None)))"

subsection \<open>The stress tensor at a location\<close>

text \<open>The six components at a location, in the order xx, yy, zz, xz, yz, xy, and the same
  six after the sample \<open>n\<close> of each channel, scaled by \<open>vtst\<close>, has been subtracted.\<close>

definition stress :: "'f PatchDecomp \<Rightarrow> int \<times> int \<times> int \<times> int \<Rightarrow> 'f list" where
  "stress pd l =
     (case l of (patch_id, x, y, z) \<Rightarrow>
        [m_stressXX (m_patches pd patch_id) x y z, m_stressYY (m_patches pd patch_id) x y z,
         m_stressZZ (m_patches pd patch_id) x y z, m_stressXZ (m_patches pd patch_id) x y z,
         m_stressYZ (m_patches pd patch_id) x y z, m_stressXY (m_patches pd patch_id) x y z])"

definition injected :: "'f fpu \<Rightarrow> 'f sources \<Rightarrow> 'f \<Rightarrow> nat \<Rightarrow> 'f list \<Rightarrow> 'f list" where
  "injected u this vtst n S =
     [fsub u (S ! 0) (fmul u vtst (the (m_ptAxx this) ! n)),
      fsub u (S ! 1) (fmul u vtst (the (m_ptAyy this) ! n)),
      fsub u (S ! 2) (fmul u vtst (the (m_ptAzz this) ! n)),
      fsub u (S ! 3) (fmul u vtst (the (m_ptAxz this) ! n)),
      fsub u (S ! 4) (fmul u vtst (the (m_ptAyz this) ! n)),
      fsub u (S ! 5) (fmul u vtst (the (m_ptAxy this) ! n))]"

subsection \<open>Auxiliary notions of the proofs\<close>

text \<open>A block written into an array; enough room in the output arrays for \<open>n\<close> more
  records; catalog arrays long enough for \<open>n\<close> records.\<close>

definition overwrite :: "'a list \<Rightarrow> nat \<Rightarrow> 'a list \<Rightarrow> 'a list" where
  "overwrite xs off ys = take off xs @ ys @ drop (off + length ys) xs"

definition room :: "copier \<Rightarrow> nat \<Rightarrow> nat \<Rightarrow> bool" where
  "room c n rs =
     ((kk c + n) * 3 \<le> length (tpsrcp c) \<and>
      (kk c + n) * rs \<le> length (taxxp c) \<and> (kk c + n) * rs \<le> length (tayyp c) \<and>
      (kk c + n) * rs \<le> length (tazzp c) \<and> (kk c + n) * rs \<le> length (taxzp c) \<and>
      (kk c + n) * rs \<le> length (tayzp c) \<and> (kk c + n) * rs \<le> length (taxyp c))"

definition fits :: "'s loader \<Rightarrow> nat \<Rightarrow> nat \<Rightarrow> bool" where
  "fits st n rs =
     (n * 3 \<le> length (tpsrc st) \<and>
      n * rs \<le> length (taxx st) \<and> n * rs \<le> length (tayy st) \<and>
      n * rs \<le> length (tazz st) \<and> n * rs \<le> length (taxz st) \<and>
      n * rs \<le> length (tayz st) \<and> n * rs \<le> length (taxy st))"

subsection \<open>A small configuration\<close>

text \<open>One process of rank 7 that owns \<open>x, y \<in> [2, 5]\<close> and \<open>z \<in> [1, 5]\<close>, and one file of two
  nodes, \<open>(3, 4, 1)\<close> and \<open>(9, 9, 9)\<close>, given as its binary items (two time steps a node) and
  as its text tokens (one time step a node); the catalog read from it with \<open>NZ = 5\<close>; a
  process that owns the second node and one that owns none. For the injector: the exact
  arithmetic of the reals; an owned table of three nodes with two samples each, the first
  and the third node at the same coordinates; a decomposition that sends the zero-based
  \<open>(x, y, z)\<close> to patch \<open>z\<close>, local position \<open>(x + 10, y + 20, x + y + z)\<close>; a field whose
  six components are 100, 200, 300, 400, 500 and 600 everywhere.\<close>

definition example_file :: disk_file where
  "example_file =
     \<lparr>items = [3, 4, 1, 11, 12, 13, 14, 15, 16, 21, 22, 23, 24, 25, 26,
               9, 9, 9, 31, 32, 33, 34, 35, 36, 41, 42, 43, 44, 45, 46],
      tokens = [IntTok 3, IntTok 4, IntTok 1,
                FloatTok 11, FloatTok 12, FloatTok 13, FloatTok 14, FloatTok 15, FloatTok 16,
                IntTok 9, IntTok 9, IntTok 9,
                FloatTok 31, FloatTok 32, FloatTok 33, FloatTok 34, FloatTok 35, FloatTok 36]\<rparr>"

definition example_env :: env where
  "example_env =
     \<lparr>m_rank = 7, m_startX = 0, m_rangeX = 4, m_startY = 0, m_rangeY = 4,
      m_startZ = 1, m_rangeZ = 5,
      fopen = (\<lambda>p. if p = ''source'' then Some example_file else None),
      uninit_int = 0, uninit_float = 0\<rparr>"

definition example_this :: "float sources" where
  "example_this =
     \<lparr>m_srcProc = 99, m_nPsrc = 98, m_ptpSrc = None, m_ptAxx = None, m_ptAyy = None,
      m_ptAzz = None, m_ptAxz = None, m_ptAyz = None, m_ptAxy = None\<rparr>"

definition example_catalog :: "unit loader" where
  "example_catalog =
     \<lparr>stream = (), tmpsrc = [9, 9, 9], tmpta = [],
      tpsrc = [3, 4, 5, 9, 9, - 3],
      taxx = [11, 31], tayy = [12, 32], tazz = [13, 33],
      taxz = [14, 34], tayz = [15, 35], taxy = [16, 36],
      calls = []\<rparr>"

definition east_env :: env where
  "east_env = example_env\<lparr>m_rank := 8, m_startX := 4, m_startY := 4, m_startZ := - 5, m_rangeZ := 11\<rparr>"

definition idle_env :: env where
  "idle_env = example_env\<lparr>m_rank := 9, m_startX := 100\<rparr>"

definition exact :: "real fpu" where
  "exact = \<lparr>fsub = (-), fmul = (*), fdiv = (/)\<rparr>"

definition example_owned :: "real sources" where
  "example_owned =
     \<lparr>m_srcProc = 7, m_nPsrc = 3, m_ptpSrc = Some [2, 3, 5, 4, 1, 2, 2, 3, 5],
      m_ptAxx = Some [800, 8, 808, 32, 816, 64],
      m_ptAyy = Some [824, 16, 832, 40, 840, 72],
      m_ptAzz = Some [848, 24, 856, 48, 864, 80],
      m_ptAxz = Some [872, 80, 880, 56, 888, 88],
      m_ptAyz = Some [896, 88, 904, 96, 912, 8],
      m_ptAxy = Some [920, 96, 928, 104, 936, 16]\<rparr>"

definition example_pd :: "real PatchDecomp" where
  "example_pd =
     \<lparr>globalToPatch = (\<lambda>x y z. z),
      globalToLocalX = (\<lambda>x y z. x + 10), globalToLocalY = (\<lambda>x y z. y + 20),
      globalToLocalZ = (\<lambda>x y z. x + y + z),
      m_patches = (\<lambda>p. \<lparr>m_stressXX = (\<lambda>x y z. 100), m_stressYY = (\<lambda>x y z. 200),
                          m_stressZZ = (\<lambda>x y z. 300), m_stressXZ = (\<lambda>x y z. 400),
                          m_stressYZ = (\<lambda>x y z. 500), m_stressXY = (\<lambda>x y z. 600)\<rparr>)\<rparr>"

section \<open>Writing blocks into arrays\<close>

lemma overwrite_Nil [simp]: "overwrite xs off [] = xs"
  by (simp add: overwrite_def)

lemma length_overwrite [simp]:
  "off + length ys \<le> length xs \<Longrightarrow> length (overwrite xs off ys) = length xs"
  by (simp add: overwrite_def)

lemma overwrite_overwrite:
  "off + length ys + length zs \<le> length xs \<Longrightarrow>
     overwrite (overwrite xs off ys) (off + length ys) zs = overwrite xs off (ys @ zs)"
  by (simp add: overwrite_def add.assoc add.commute add.left_commute)

lemma update_overwrite:
  "off < length xs \<Longrightarrow> xs[off := v] = overwrite xs off [v]"
  by (simp add: overwrite_def upd_conv_take_nth_drop)

lemma overwrite_all: "length ys = length xs \<Longrightarrow> overwrite xs 0 ys = ys"
  by (simp add: overwrite_def)

lemma fold_update_overwrite:
  "b + n \<le> length t \<Longrightarrow>
     fold (\<lambda>j t. t[b + j := f j]) [0..<n] t = overwrite t b (map f [0..<n])"
proof (induction n)
  case 0
  then show ?case by simp
next
  case (Suc n)
  then have "fold (\<lambda>j t. t[b + j := f j]) [0..<Suc n] t
      = (overwrite t b (map f [0..<n]))[b + n := f n]"
    by simp
  also have "\<dots> = overwrite (overwrite t b (map f [0..<n])) (b + length (map f [0..<n])) [f n]"
    using Suc.prems by (simp add: update_overwrite)
  also have "\<dots> = overwrite t b (map f [0..<n] @ [f n])"
    using Suc.prems by (subst overwrite_overwrite) simp_all
  finally show ?case by simp
qed

lemma update3_overwrite:
  "q * 3 + 3 \<le> length xs \<Longrightarrow>
     xs[q * 3 := a, q * 3 + 1 := b, q * 3 + 2 := c] = overwrite xs (q * 3) [a, b, c]"
proof -
  assume len: "q * 3 + 3 \<le> length xs"
  have "xs[q * 3 := a] = overwrite xs (q * 3) [a]"
    using len by (simp add: update_overwrite)
  moreover have "(overwrite xs (q * 3) [a])[q * 3 + 1 := b] = overwrite xs (q * 3) [a, b]"
    using len overwrite_overwrite [of "q * 3" "[a]" "[b]" xs]
    by (simp add: update_overwrite)
  moreover have "(overwrite xs (q * 3) [a, b])[q * 3 + 2 := c] = overwrite xs (q * 3) [a, b, c]"
    using len overwrite_overwrite [of "q * 3" "[a, b]" "[c]" xs]
    by (simp add: update_overwrite)
  ultimately show ?thesis by simp
qed

lemma update3_overwrite_Suc:
  "q * 3 + 3 \<le> length xs \<Longrightarrow>
     xs[q * 3 := a, Suc (q * 3) := b, Suc (Suc (q * 3)) := c] = overwrite xs (q * 3) [a, b, c]"
  using update3_overwrite [of q xs a b c] by simp

lemma overwrite_next:
  "length ys = m \<Longrightarrow> m + q * m + length zs \<le> length xs \<Longrightarrow>
     overwrite (overwrite xs (q * m) ys) (m + q * m) zs = overwrite xs (q * m) (ys @ zs)"
  using overwrite_overwrite [of "q * m" ys zs xs] by (simp add: add.commute)

lemma overwrite_snoc:
  "length ys = off \<Longrightarrow> off + length zs \<le> length xs \<Longrightarrow>
     overwrite (overwrite xs 0 ys) off zs = overwrite xs 0 (ys @ zs)"
  using overwrite_overwrite [of 0 ys zs xs] by simp

lemma overwrite_update_snoc:
  "length ys = m \<Longrightarrow> off + m < length xs \<Longrightarrow>
     (overwrite xs off ys)[off + m := v] = overwrite xs off (ys @ [v])"
  using overwrite_overwrite [of off ys "[v]" xs] by (simp add: update_overwrite)

lemma concat_replicate_Suc: "concat (replicate n xs) @ xs = concat (replicate (Suc n) xs)"
  by (induction n) simp_all

lemma concat_nth_block:
  "q < length xs \<Longrightarrow> c < m \<Longrightarrow> (\<And>x. length (f x) = m) \<Longrightarrow>
     concat (map f xs) ! (q * m + c) = f (xs ! q) ! c"
proof (induction xs arbitrary: q)
  case Nil
  then show ?case by simp
next
  case (Cons x xs)
  show ?case
  proof (cases q)
    case 0
    with Cons.prems show ?thesis by (simp add: nth_append)
  next
    case (Suc q')
    with Cons.prems have "concat (map f xs) ! (q' * m + c) = f (xs ! q') ! c"
      by (intro Cons.IH) simp_all
    with Suc Cons.prems show ?thesis by (simp add: nth_append add.assoc)
  qed
qed

lemma take_drop_nth:
  "p + n \<le> length ts \<Longrightarrow> take n (drop p ts) = map (\<lambda>c. ts ! (p + c)) [0..<n]"
  by (simp add: list_eq_iff_nth_eq)

lemma upt_3: "[0..<3] = [0, 1, 2]"
  by (simp add: upt_rec)

lemma upt_6: "[0..<6] = [0, 1, 2, 3, 4, 5]"
  by (simp add: upt_rec)

lemma nat_index [simp]:
  "nat (int a * int b + int c) = a * b + c"
  "nat (int a * int b) = a * b"
  "nat (int a * 3) = a * 3"
  "nat (int a * 3 + 1) = a * 3 + 1"
  "nat (int a * 3 + 2) = a * 3 + 2"
  by (simp_all add: nat_add_distrib nat_mult_distrib)

lemma nat_int_mult [simp]: "nat (int n * z) = n * nat z"
  by (simp add: nat_mult_distrib)

lemma nat_mult_3 [simp]: "nat (z * 3) = nat z * 3"
  by (cases "0 \<le> z") (simp_all add: nat_mult_distrib mult_nonpos_nonneg)

lemma nat_mult_int [simp]: "nat (z * int rs) = nat z * rs"
  by (cases "0 \<le> z") (simp_all add: nat_mult_distrib mult_nonpos_nonneg)

section \<open>The resolver\<close>

subsection \<open>The two passes in closed form\<close>

lemma owns_inside:
  "owns e 3 tp i = inside e (tp ! (i * 3)) (tp ! (i * 3 + 1)) (tp ! (i * 3 + 2))"
  by (auto simp: owns_def inside_def)

lemma fold_copy_row:
  "fold (copy_row RS cat i) js c =
     c\<lparr>taxxp := fold (\<lambda>j t. t[nat (int (kk c) * RS + int j) := taxx cat ! nat (int i * RS + int j)]) js (taxxp c),
       tayyp := fold (\<lambda>j t. t[nat (int (kk c) * RS + int j) := tayy cat ! nat (int i * RS + int j)]) js (tayyp c),
       tazzp := fold (\<lambda>j t. t[nat (int (kk c) * RS + int j) := tazz cat ! nat (int i * RS + int j)]) js (tazzp c),
       taxzp := fold (\<lambda>j t. t[nat (int (kk c) * RS + int j) := taxz cat ! nat (int i * RS + int j)]) js (taxzp c),
       tayzp := fold (\<lambda>j t. t[nat (int (kk c) * RS + int j) := tayz cat ! nat (int i * RS + int j)]) js (tayzp c),
       taxyp := fold (\<lambda>j t. t[nat (int (kk c) * RS + int j) := taxy cat ! nat (int i * RS + int j)]) js (taxyp c)\<rparr>"
  by (induction js arbitrary: c) (simp_all add: copy_row_def)

lemma fold_row_overwrite:
  "rs + q * rs \<le> length t \<Longrightarrow>
     fold (\<lambda>j t. t[q * rs + j := src ! (i * rs + j)]) [0..<rs] t
       = overwrite t (q * rs) (row rs src i)"
  using fold_update_overwrite [of "q * rs" rs t "\<lambda>j. src ! (i * rs + j)"]
  by (simp add: row_def add.commute)

lemma copy_rows:
  assumes "(kk c + 1) * nat RS \<le> length (taxxp c)" "(kk c + 1) * nat RS \<le> length (tayyp c)"
    "(kk c + 1) * nat RS \<le> length (tazzp c)" "(kk c + 1) * nat RS \<le> length (taxzp c)"
    "(kk c + 1) * nat RS \<le> length (tayzp c)" "(kk c + 1) * nat RS \<le> length (taxyp c)"
  shows "fold (copy_row RS cat i) [0..<nat RS] c =
     c\<lparr>taxxp := overwrite (taxxp c) (kk c * nat RS) (row (nat RS) (taxx cat) i),
       tayyp := overwrite (tayyp c) (kk c * nat RS) (row (nat RS) (tayy cat) i),
       tazzp := overwrite (tazzp c) (kk c * nat RS) (row (nat RS) (tazz cat) i),
       taxzp := overwrite (taxzp c) (kk c * nat RS) (row (nat RS) (taxz cat) i),
       tayzp := overwrite (tayzp c) (kk c * nat RS) (row (nat RS) (tayz cat) i),
       taxyp := overwrite (taxyp c) (kk c * nat RS) (row (nat RS) (taxy cat) i)\<rparr>"
proof (cases "RS \<le> 0")
  case True
  then show ?thesis by (simp add: row_def)
next
  case False
  then obtain rs where rs: "RS = int rs" by (metis nat_le_linear nat_0_le not_le_imp_less order_less_imp_le)
  show ?thesis
    using assms unfolding rs fold_copy_row by (simp add: fold_row_overwrite)
qed

lemma length_row [simp]: "length (row rs t i) = rs"
  by (simp add: row_def)

lemma length_local_pos [simp]: "length (local_pos e tp i) = 3"
  by (simp add: local_pos_def)

lemma length_concat_rows [simp]: "length (concat (map (row rs t) xs)) = length xs * rs"
  by (induction xs) simp_all

lemma length_concat_pos [simp]: "length (concat (map (local_pos e tp) xs)) = length xs * 3"
  by (induction xs) simp_all

lemma copy_node_owned:
  assumes "owns e 3 (tpsrc cat) i" and "room c 1 (nat RS)"
  shows "copy_node e RS 3 cat i c =
     c\<lparr>kk := kk c + 1,
       tpsrcp := overwrite (tpsrcp c) (kk c * 3) (local_pos e (tpsrc cat) i),
       taxxp := overwrite (taxxp c) (kk c * nat RS) (row (nat RS) (taxx cat) i),
       tayyp := overwrite (tayyp c) (kk c * nat RS) (row (nat RS) (tayy cat) i),
       tazzp := overwrite (tazzp c) (kk c * nat RS) (row (nat RS) (tazz cat) i),
       taxzp := overwrite (taxzp c) (kk c * nat RS) (row (nat RS) (taxz cat) i),
       tayzp := overwrite (tayzp c) (kk c * nat RS) (row (nat RS) (tayz cat) i),
       taxyp := overwrite (taxyp c) (kk c * nat RS) (row (nat RS) (taxy cat) i)\<rparr>"
  using assms
  by (simp add: copy_node_def Let_def room_def copy_rows update3_overwrite_Suc local_pos_def)

lemma copy_node_other: "\<not> owns e 3 (tpsrc cat) i \<Longrightarrow> copy_node e RS 3 cat i c = c"
  by (simp add: copy_node_def)

lemma fold_copy_node:
  "room c (length (filter (owns e 3 (tpsrc cat)) is)) (nat RS) \<Longrightarrow>
   fold (copy_node e RS 3 cat) is c =
     c\<lparr>kk := kk c + length (filter (owns e 3 (tpsrc cat)) is),
       tpsrcp := overwrite (tpsrcp c) (kk c * 3)
                   (concat (map (local_pos e (tpsrc cat)) (filter (owns e 3 (tpsrc cat)) is))),
       taxxp := overwrite (taxxp c) (kk c * nat RS)
                   (concat (map (row (nat RS) (taxx cat)) (filter (owns e 3 (tpsrc cat)) is))),
       tayyp := overwrite (tayyp c) (kk c * nat RS)
                   (concat (map (row (nat RS) (tayy cat)) (filter (owns e 3 (tpsrc cat)) is))),
       tazzp := overwrite (tazzp c) (kk c * nat RS)
                   (concat (map (row (nat RS) (tazz cat)) (filter (owns e 3 (tpsrc cat)) is))),
       taxzp := overwrite (taxzp c) (kk c * nat RS)
                   (concat (map (row (nat RS) (taxz cat)) (filter (owns e 3 (tpsrc cat)) is))),
       tayzp := overwrite (tayzp c) (kk c * nat RS)
                   (concat (map (row (nat RS) (tayz cat)) (filter (owns e 3 (tpsrc cat)) is))),
       taxyp := overwrite (taxyp c) (kk c * nat RS)
                   (concat (map (row (nat RS) (taxy cat)) (filter (owns e 3 (tpsrc cat)) is)))\<rparr>"
proof (induction "is" arbitrary: c)
  case Nil
  then show ?case by simp
next
  case (Cons i "is")
  show ?case
  proof (cases "owns e 3 (tpsrc cat) i")
    case False
    with Cons show ?thesis by (simp add: copy_node_other)
  next
    case True
    let ?n = "length (filter (owns e 3 (tpsrc cat)) is)"
    let ?c = "copy_node e RS 3 cat i c"
    from Cons.prems True have r: "room c (Suc ?n) (nat RS)" by simp
    then have r1: "room c 1 (nat RS)" by (simp add: room_def add_mult_distrib)
    have r2: "room ?c ?n (nat RS)"
      using r unfolding copy_node_owned [OF True r1] by (simp add: room_def add_mult_distrib)
    have "fold (copy_node e RS 3 cat) (i # is) c = fold (copy_node e RS 3 cat) is ?c"
      by simp
    also note Cons.IH [OF r2]
    finally show ?thesis
      using True r
      by (simp add: copy_node_owned [OF True r1] room_def add_mult_distrib overwrite_next)
  qed
qed

lemma fold_count_node:
  "fold (count_node e 3 tp) is s =
     (if filter (owns e 3 tp) is = [] then fst s else m_rank e,
      snd s + int (length (filter (owns e 3 tp) is)))"
  by (induction "is" arbitrary: s) (auto simp: count_node_def)

lemma owns_own_ix: "filter (owns e 3 tp) [0..<n] = own_ix e tp n"
  by (simp add: own_ix_def owns_inside [abs_def])

lemma count_owned_eq:
  "count_owned e NSRC 3 tp =
     (if own_ix e tp (nat NSRC) = [] then - 1 else m_rank e,
      int (length (own_ix e tp (nat NSRC))))"
  by (simp add: count_owned_def fold_count_node owns_own_ix)

lemma copy_owned_eq:
  "copy_owned e NSRC RS 3 cat (int (length (own_ix e (tpsrc cat) (nat NSRC)))) =
     \<lparr>kk = length (own_ix e (tpsrc cat) (nat NSRC)),
      tpsrcp = concat (map (local_pos e (tpsrc cat)) (own_ix e (tpsrc cat) (nat NSRC))),
      taxxp = concat (map (row (nat RS) (taxx cat)) (own_ix e (tpsrc cat) (nat NSRC))),
      tayyp = concat (map (row (nat RS) (tayy cat)) (own_ix e (tpsrc cat) (nat NSRC))),
      tazzp = concat (map (row (nat RS) (tazz cat)) (own_ix e (tpsrc cat) (nat NSRC))),
      taxzp = concat (map (row (nat RS) (taxz cat)) (own_ix e (tpsrc cat) (nat NSRC))),
      tayzp = concat (map (row (nat RS) (tayz cat)) (own_ix e (tpsrc cat) (nat NSRC))),
      taxyp = concat (map (row (nat RS) (taxy cat)) (own_ix e (tpsrc cat) (nat NSRC)))\<rparr>"
  unfolding copy_owned_def
  by (subst fold_copy_node)
     (simp_all add: room_def Alloc1P_def Alloc1D_def owns_own_ix overwrite_all)

lemma resolve_eq:
  "resolve e NSRC RS 3 cat =
     (let own = own_ix e (tpsrc cat) (nat NSRC)
      in if own = []
         then (\<lparr>m_srcProc = - 1, m_nPsrc = 0, m_ptpSrc = None,
                 m_ptAxx = None, m_ptAyy = None, m_ptAzz = None,
                 m_ptAxz = None, m_ptAyz = None, m_ptAxy = None\<rparr>,
               replicate 6 Ev_Delloc1D @ [Ev_Delloc1P])
         else (\<lparr>m_srcProc = m_rank e, m_nPsrc = int (length own),
                 m_ptpSrc = Some (concat (map (local_pos e (tpsrc cat)) own)),
                 m_ptAxx = Some (concat (map (row (nat RS) (taxx cat)) own)),
                 m_ptAyy = Some (concat (map (row (nat RS) (tayy cat)) own)),
                 m_ptAzz = Some (concat (map (row (nat RS) (tazz cat)) own)),
                 m_ptAxz = Some (concat (map (row (nat RS) (taxz cat)) own)),
                 m_ptAyz = Some (concat (map (row (nat RS) (tayz cat)) own)),
                 m_ptAxy = Some (concat (map (row (nat RS) (taxy cat)) own))\<rparr>,
               Ev_Alloc1P (int (length own) * 3)
                 # replicate 6 (Ev_Alloc1D (int (length own) * RS))
                 @ replicate 6 Ev_Delloc1D @ [Ev_Delloc1P]))"
  by (simp add: resolve_def count_owned_eq copy_owned_eq Let_def)

lemma row_concat_rows:
  "q < length xs \<Longrightarrow> row rs (concat (map (row rs t) xs)) q = row rs t (xs ! q)"
proof -
  assume q: "q < length xs"
  have "concat (map (row rs t) xs) ! (q * rs + j) = row rs t (xs ! q) ! j" if "j < rs" for j
    using q that by (rule concat_nth_block) simp
  then show ?thesis
    by (simp add: row_def)
qed

lemma pos_concat:
  "q < length xs \<Longrightarrow> c < 3 \<Longrightarrow>
     concat (map (local_pos e tp) xs) ! (q * 3 + c) = local_pos e tp (xs ! q) ! c"
  by (rule concat_nth_block) simp_all

lemma resolve_owned:
  "own_ix e (tpsrc cat) (nat NSRC) \<noteq> [] \<Longrightarrow>
   fst (resolve e NSRC RS 3 cat) =
     \<lparr>m_srcProc = m_rank e, m_nPsrc = int (length (own_ix e (tpsrc cat) (nat NSRC))),
      m_ptpSrc = Some (concat (map (local_pos e (tpsrc cat)) (own_ix e (tpsrc cat) (nat NSRC)))),
      m_ptAxx = Some (concat (map (row (nat RS) (taxx cat)) (own_ix e (tpsrc cat) (nat NSRC)))),
      m_ptAyy = Some (concat (map (row (nat RS) (tayy cat)) (own_ix e (tpsrc cat) (nat NSRC)))),
      m_ptAzz = Some (concat (map (row (nat RS) (tazz cat)) (own_ix e (tpsrc cat) (nat NSRC)))),
      m_ptAxz = Some (concat (map (row (nat RS) (taxz cat)) (own_ix e (tpsrc cat) (nat NSRC)))),
      m_ptAyz = Some (concat (map (row (nat RS) (tayz cat)) (own_ix e (tpsrc cat) (nat NSRC)))),
      m_ptAxy = Some (concat (map (row (nat RS) (taxy cat)) (own_ix e (tpsrc cat) (nat NSRC))))\<rparr>"
  by (simp add: resolve_eq Let_def)

lemma resolve_unowned:
  "own_ix e (tpsrc cat) (nat NSRC) = [] \<Longrightarrow>
   resolve e NSRC RS 3 cat =
     (\<lparr>m_srcProc = - 1, m_nPsrc = 0, m_ptpSrc = None,
       m_ptAxx = None, m_ptAyy = None, m_ptAzz = None,
       m_ptAxz = None, m_ptAyz = None, m_ptAxy = None\<rparr>,
      replicate 6 Ev_Delloc1D @ [Ev_Delloc1P])"
  by (simp add: resolve_eq Let_def)

lemma owned_node_resolve:
  assumes "q < length (own_ix e (tpsrc cat) (nat NSRC))"
  shows "owned_node e (nat RS) (fst (resolve e NSRC RS 3 cat)) q
           = catalog_node (nat RS) cat (own_ix e (tpsrc cat) (nat NSRC) ! q)"
proof -
  let ?own = "own_ix e (tpsrc cat) (nat NSRC)"
  from assms have ne: "?own \<noteq> []" by auto
  have p0: "concat (map (local_pos e (tpsrc cat)) ?own) ! (q * 3)
      = tpsrc cat ! (?own ! q * 3) - nbx e + 1"
    using pos_concat [OF assms, of 0 e "tpsrc cat"] by (simp add: local_pos_def)
  have p1: "concat (map (local_pos e (tpsrc cat)) ?own) ! (q * 3 + 1)
      = tpsrc cat ! (?own ! q * 3 + 1) - nby e + 1"
    using pos_concat [OF assms, of 1 e "tpsrc cat"] by (simp add: local_pos_def)
  have p2: "concat (map (local_pos e (tpsrc cat)) ?own) ! (q * 3 + 2)
      = tpsrc cat ! (?own ! q * 3 + 2) - nbz e + 1"
    using pos_concat [OF assms, of 2 e "tpsrc cat"] by (simp add: local_pos_def)
  show ?thesis
    unfolding owned_node_def catalog_node_def resolve_owned [OF ne]
    by (simp only: sources.simps option.sel p0 p1 p2 row_concat_rows [OF assms]) simp
qed

lemma owned_nodes_resolve:
  "owned_nodes e (nat RS) (fst (resolve e NSRC RS 3 cat)) =
     filter (in_subdomain e) (catalog_nodes (nat RS) cat (nat NSRC))"
proof -
  let ?own = "own_ix e (tpsrc cat) (nat NSRC)"
  let ?s = "fst (resolve e NSRC RS 3 cat)"
  have filt: "filter (in_subdomain e) (catalog_nodes (nat RS) cat (nat NSRC))
      = map (catalog_node (nat RS) cat) ?own"
    by (simp add: catalog_nodes_def filter_map own_ix_def o_def in_subdomain_def
        catalog_node_def)
  have n: "nat (m_nPsrc ?s) = length ?own"
    by (cases "?own = []") (simp_all add: resolve_owned resolve_unowned)
  have "owned_nodes e (nat RS) ?s = map (catalog_node (nat RS) cat) ?own"
    unfolding owned_nodes_def n
    by (rule nth_equalityI) (simp_all add: owned_node_resolve)
  with filt show ?thesis by simp
qed

lemma owned_z:
  assumes "q < length (own_ix e (tpsrc c) (nat NSRC))"
  shows "the (m_ptpSrc (fst (resolve e NSRC READ_STEP 3 c))) ! (q * 3 + 2)
           = tpsrc c ! (own_ix e (tpsrc c) (nat NSRC) ! q * 3 + 2) - nbz e + 1"
proof -
  from assms have ne: "own_ix e (tpsrc c) (nat NSRC) \<noteq> []" by auto
  show ?thesis
    unfolding resolve_owned [OF ne]
    using pos_concat [OF assms, of 2 e "tpsrc c"] by (simp add: local_pos_def)
qed

subsection \<open>Claims about the resolver\<close>

text \<open>C2. The first pass counts exactly the catalog nodes for which the six inclusive
  comparisons \<open>nbx \<le> x \<le> nex\<close>, \<open>nby \<le> y \<le> ney\<close>, \<open>nbz \<le> z \<le> nez\<close> all hold; and when no
  node passes, the flag stored is \<open>-1\<close>, the count is 0, the seven output pointers are
  \<open>NULL\<close> and the resolver allocates nothing (it only releases the catalog).\<close>

theorem ownership_test:
  "snd (count_owned e NSRC 3 (tpsrc cat)) =
     int (length (filter
       (\<lambda>i. nbx e \<le> tpsrc cat ! (i * 3) \<and> tpsrc cat ! (i * 3) \<le> nex e \<and>
            nby e \<le> tpsrc cat ! (i * 3 + 1) \<and> tpsrc cat ! (i * 3 + 1) \<le> ney e \<and>
            nbz e \<le> tpsrc cat ! (i * 3 + 2) \<and> tpsrc cat ! (i * 3 + 2) \<le> nez e)
       [0..<nat NSRC]))
   \<and> ((\<forall>i<nat NSRC.
          \<not> (nbx e \<le> tpsrc cat ! (i * 3) \<and> tpsrc cat ! (i * 3) \<le> nex e \<and>
             nby e \<le> tpsrc cat ! (i * 3 + 1) \<and> tpsrc cat ! (i * 3 + 1) \<le> ney e \<and>
             nbz e \<le> tpsrc cat ! (i * 3 + 2) \<and> tpsrc cat ! (i * 3 + 2) \<le> nez e))
        \<longrightarrow> resolve e NSRC READ_STEP 3 cat =
              (\<lparr>m_srcProc = - 1, m_nPsrc = 0, m_ptpSrc = None,
                m_ptAxx = None, m_ptAyy = None, m_ptAzz = None,
                m_ptAxz = None, m_ptAyz = None, m_ptAxy = None\<rparr>,
               replicate 6 Ev_Delloc1D @ [Ev_Delloc1P]))"
proof -
  have own: "own_ix e (tpsrc cat) (nat NSRC) =
     filter (\<lambda>i. nbx e \<le> tpsrc cat ! (i * 3) \<and> tpsrc cat ! (i * 3) \<le> nex e \<and>
            nby e \<le> tpsrc cat ! (i * 3 + 1) \<and> tpsrc cat ! (i * 3 + 1) \<le> ney e \<and>
            nbz e \<le> tpsrc cat ! (i * 3 + 2) \<and> tpsrc cat ! (i * 3 + 2) \<le> nez e)
       [0..<nat NSRC]"
    by (simp add: own_ix_def inside_def)
  have "own_ix e (tpsrc cat) (nat NSRC) = []"
    if "\<forall>i<nat NSRC.
          \<not> (nbx e \<le> tpsrc cat ! (i * 3) \<and> tpsrc cat ! (i * 3) \<le> nex e \<and>
             nby e \<le> tpsrc cat ! (i * 3 + 1) \<and> tpsrc cat ! (i * 3 + 1) \<le> ney e \<and>
             nbz e \<le> tpsrc cat ! (i * 3 + 2) \<and> tpsrc cat ! (i * 3 + 2) \<le> nez e)"
    unfolding own using that by (simp add: filter_empty_conv)
  then show ?thesis
    using own by (simp add: count_owned_eq resolve_unowned)
qed

theorem ownership_test_witness:
  "\<not> (\<exists>i<nat 2.
      (nbx idle_env \<le> tpsrc example_catalog ! (i * 3) \<and>
         tpsrc example_catalog ! (i * 3) \<le> nex idle_env \<and>
         nby idle_env \<le> tpsrc example_catalog ! (i * 3 + 1) \<and>
         tpsrc example_catalog ! (i * 3 + 1) \<le> ney idle_env \<and>
         nbz idle_env \<le> tpsrc example_catalog ! (i * 3 + 2) \<and>
         tpsrc example_catalog ! (i * 3 + 2) \<le> nez idle_env))
   \<and> resolve idle_env 2 1 3 example_catalog =
        (\<lparr>m_srcProc = - 1, m_nPsrc = 0, m_ptpSrc = None,
          m_ptAxx = None, m_ptAyy = None, m_ptAzz = None,
          m_ptAxz = None, m_ptAyz = None, m_ptAxy = None\<rparr>,
         replicate 6 Ev_Delloc1D @ [Ev_Delloc1P])
   \<and> snd (count_owned example_env 2 3 (tpsrc example_catalog)) = 1"
proof -
  have h: "\<forall>i<nat 2.
      \<not> (nbx idle_env \<le> tpsrc example_catalog ! (i * 3) \<and>
         tpsrc example_catalog ! (i * 3) \<le> nex idle_env \<and>
         nby idle_env \<le> tpsrc example_catalog ! (i * 3 + 1) \<and>
         tpsrc example_catalog ! (i * 3 + 1) \<le> ney idle_env \<and>
         nbz idle_env \<le> tpsrc example_catalog ! (i * 3 + 2) \<and>
         tpsrc example_catalog ! (i * 3 + 2) \<le> nez idle_env)"
    by (simp add: less_Suc_eq numeral_2_eq_2 example_catalog_def idle_env_def example_env_def
        nbx_def nex_def nby_def ney_def nbz_def nez_def)
  have c: "snd (count_owned example_env 2 3 (tpsrc example_catalog)) = 1"
    using ownership_test [of example_env 2 example_catalog]
    by (simp add: numeral_2_eq_2 example_catalog_def example_env_def
        nbx_def nex_def nby_def ney_def nbz_def nez_def)
  have nh: "\<not> (\<exists>i<nat 2.
      (nbx idle_env \<le> tpsrc example_catalog ! (i * 3) \<and>
         tpsrc example_catalog ! (i * 3) \<le> nex idle_env \<and>
         nby idle_env \<le> tpsrc example_catalog ! (i * 3 + 1) \<and>
         tpsrc example_catalog ! (i * 3 + 1) \<le> ney idle_env \<and>
         nbz idle_env \<le> tpsrc example_catalog ! (i * 3 + 2) \<and>
         tpsrc example_catalog ! (i * 3 + 2) \<le> nez idle_env))"
    using h by blast
  note r = ownership_test [of idle_env 2 example_catalog 1, THEN conjunct2, THEN mp, OF h]
  show ?thesis
    by (intro conjI) (rule nh, rule r, rule c)
qed

text \<open>C3. The second pass, started with the count of the first, ends with \<open>k\<close> equal to that
  count, having written one record for each catalog node that passes the test, in catalog
  order: its three coordinates \<open>g - b + 1\<close> and, unchanged, its \<open>READ_STEP\<close> samples of each
  of the six channels.\<close>

theorem second_pass_copies_owned:
  "copy_owned e NSRC READ_STEP 3 cat (snd (count_owned e NSRC 3 (tpsrc cat))) =
     \<lparr>kk = nat (snd (count_owned e NSRC 3 (tpsrc cat))),
      tpsrcp = concat (map (local_pos e (tpsrc cat)) (own_ix e (tpsrc cat) (nat NSRC))),
      taxxp = concat (map (row (nat READ_STEP) (taxx cat)) (own_ix e (tpsrc cat) (nat NSRC))),
      tayyp = concat (map (row (nat READ_STEP) (tayy cat)) (own_ix e (tpsrc cat) (nat NSRC))),
      tazzp = concat (map (row (nat READ_STEP) (tazz cat)) (own_ix e (tpsrc cat) (nat NSRC))),
      taxzp = concat (map (row (nat READ_STEP) (taxz cat)) (own_ix e (tpsrc cat) (nat NSRC))),
      tayzp = concat (map (row (nat READ_STEP) (tayz cat)) (own_ix e (tpsrc cat) (nat NSRC))),
      taxyp = concat (map (row (nat READ_STEP) (taxy cat)) (own_ix e (tpsrc cat) (nat NSRC)))\<rparr>
   \<and> snd (count_owned e NSRC 3 (tpsrc cat)) = int (length (own_ix e (tpsrc cat) (nat NSRC)))
   \<and> m_ptpSrc (fst (resolve e NSRC READ_STEP 3 cat)) =
       (if own_ix e (tpsrc cat) (nat NSRC) = [] then None
        else Some (concat (map (local_pos e (tpsrc cat)) (own_ix e (tpsrc cat) (nat NSRC)))))"
  by (simp add: count_owned_eq copy_owned_eq resolve_owned resolve_unowned)

text \<open>C5. Let every process of a list run the resolver on the same catalog. Read back in
  global coordinates, the owned records of all the processes are exactly the catalog nodes
  that lie in one of the sub-domains; and when no two sub-domains share a point, no record
  is owned by two processes. (That the sub-domains leave no gap is not needed.)\<close>

theorem owned_sets_partition:
  assumes "\<forall>a<length es. \<forall>b<length es. a \<noteq> b \<longrightarrow>
             (\<forall>x y z. \<not> (inside (es ! a) x y z \<and> inside (es ! b) x y z))"
  shows "(\<Union>e\<in>set es. set (owned_nodes e (nat READ_STEP) (fst (resolve e NSRC READ_STEP 3 cat))))
           = {nd \<in> set (catalog_nodes (nat READ_STEP) cat (nat NSRC)). \<exists>e\<in>set es. in_subdomain e nd}
         \<and> (\<forall>a<length es. \<forall>b<length es. a \<noteq> b \<longrightarrow>
               set (owned_nodes (es ! a) (nat READ_STEP) (fst (resolve (es ! a) NSRC READ_STEP 3 cat)))
               \<inter> set (owned_nodes (es ! b) (nat READ_STEP) (fst (resolve (es ! b) NSRC READ_STEP 3 cat)))
               = {})"
proof (intro conjI allI impI)
  show "(\<Union>e\<in>set es. set (owned_nodes e (nat READ_STEP) (fst (resolve e NSRC READ_STEP 3 cat))))
           = {nd \<in> set (catalog_nodes (nat READ_STEP) cat (nat NSRC)). \<exists>e\<in>set es. in_subdomain e nd}"
    by (auto simp: owned_nodes_resolve)
next
  fix a b assume ab: "a < length es" "b < length es" "a \<noteq> b"
  with assms have "\<not> (inside (es ! a) x y z \<and> inside (es ! b) x y z)" for x y z
    by blast
  then show "set (owned_nodes (es ! a) (nat READ_STEP) (fst (resolve (es ! a) NSRC READ_STEP 3 cat)))
               \<inter> set (owned_nodes (es ! b) (nat READ_STEP) (fst (resolve (es ! b) NSRC READ_STEP 3 cat)))
               = {}"
    by (auto simp: owned_nodes_resolve in_subdomain_def)
qed

theorem owned_sets_partition_witness:
  "\<not> (\<exists>a<length [example_env, east_env]. \<exists>b<length [example_env, east_env]. a \<noteq> b \<and>
      (\<exists>x y z. inside ([example_env, east_env] ! a) x y z \<and>
                 inside ([example_env, east_env] ! b) x y z))
   \<and> (\<Union>e\<in>set [example_env, east_env].
         set (owned_nodes e (nat 1) (fst (resolve e 2 1 3 example_catalog))))
       = {nd \<in> set (catalog_nodes (nat 1) example_catalog (nat 2)).
            \<exists>e\<in>set [example_env, east_env]. in_subdomain e nd}"
proof -
  have h: "\<forall>a<length [example_env, east_env]. \<forall>b<length [example_env, east_env]. a \<noteq> b \<longrightarrow>
      (\<forall>x y z. \<not> (inside ([example_env, east_env] ! a) x y z \<and>
                   inside ([example_env, east_env] ! b) x y z))"
    by (auto simp: less_Suc_eq nth_Cons' inside_def east_env_def example_env_def
        nbx_def nex_def nby_def ney_def nbz_def nez_def)
  have nh: "\<not> (\<exists>a<length [example_env, east_env]. \<exists>b<length [example_env, east_env]. a \<noteq> b \<and>
      (\<exists>x y z. inside ([example_env, east_env] ! a) x y z \<and>
                 inside ([example_env, east_env] ! b) x y z))"
    using h by blast
  note u = owned_sets_partition [OF h, of 1 2 example_catalog, THEN conjunct1]
  show ?thesis
    by (intro conjI) (rule nh, rule u)
qed

section \<open>The loader\<close>

subsection \<open>Binary mode\<close>

lemma fread_full:
  "n \<le> length s \<Longrightarrow> length ptr = n \<Longrightarrow>
     fread conv ptr n s = (map conv (take n s), n, drop n s)"
  by (simp add: fread_def Let_def)

lemma fold_copy_sample:
  "fold (copy_sample RS i) js st =
     st\<lparr>taxx := fold (\<lambda>j t. t[nat (int i * RS + int j) := tmpta st ! (j * 6)]) js (taxx st),
        tayy := fold (\<lambda>j t. t[nat (int i * RS + int j) := tmpta st ! (j * 6 + 1)]) js (tayy st),
        tazz := fold (\<lambda>j t. t[nat (int i * RS + int j) := tmpta st ! (j * 6 + 2)]) js (tazz st),
        taxz := fold (\<lambda>j t. t[nat (int i * RS + int j) := tmpta st ! (j * 6 + 3)]) js (taxz st),
        tayz := fold (\<lambda>j t. t[nat (int i * RS + int j) := tmpta st ! (j * 6 + 4)]) js (tayz st),
        taxy := fold (\<lambda>j t. t[nat (int i * RS + int j) := tmpta st ! (j * 6 + 5)]) js (taxy st)\<rparr>"
  by (induction js arbitrary: st) (simp_all add: copy_sample_def)

lemma fold_sample_overwrite:
  "i * rs + rs \<le> length t \<Longrightarrow>
     fold (\<lambda>j t. t[nat (int i * int rs + int j) := f j]) [0..<rs] t
       = overwrite t (i * rs) (map f [0..<rs])"
  using fold_update_overwrite [of "i * rs" rs t f] by simp

lemma copy_samples:
  assumes "fits st (Suc i) rs"
  shows "fold (copy_sample (int rs) i) [0..<rs] st =
     st\<lparr>taxx := overwrite (taxx st) (i * rs) (map (\<lambda>j. tmpta st ! (j * 6)) [0..<rs]),
        tayy := overwrite (tayy st) (i * rs) (map (\<lambda>j. tmpta st ! (j * 6 + 1)) [0..<rs]),
        tazz := overwrite (tazz st) (i * rs) (map (\<lambda>j. tmpta st ! (j * 6 + 2)) [0..<rs]),
        taxz := overwrite (taxz st) (i * rs) (map (\<lambda>j. tmpta st ! (j * 6 + 3)) [0..<rs]),
        tayz := overwrite (tayz st) (i * rs) (map (\<lambda>j. tmpta st ! (j * 6 + 4)) [0..<rs]),
        taxy := overwrite (taxy st) (i * rs) (map (\<lambda>j. tmpta st ! (j * 6 + 5)) [0..<rs])\<rparr>"
  using assms unfolding fold_copy_sample fits_def
  by (simp only: fold_sample_overwrite mult_Suc add.commute [of rs])

lemma block_nth:
  assumes "j < rs" "rs \<le> nst" "c < 6" "p + 3 + nst * 6 \<le> length s"
  shows "take (nst * 6) (drop (p + 3) s) ! (j * 6 + c) = s ! (p + 3 + j * 6 + c)"
proof -
  from assms have "Suc j \<le> nst" by simp
  then have "Suc j * 6 \<le> nst * 6" by (rule mult_le_mono1)
  with assms have lt: "j * 6 + c < nst * 6" by simp
  with assms show ?thesis by (simp add: add.assoc)
qed

lemma block_row:
  assumes "rs \<le> nst" "c < 6" "i * bin_len nst + bin_len nst \<le> length s"
  shows "map (\<lambda>j. take (nst * 6) (drop (i * bin_len nst + 3) s) ! (j * 6 + c)) [0..<rs]
           = bin_row nst rs c s i"
  unfolding bin_row_def
proof (rule map_cong [OF refl])
  fix j assume "j \<in> set [0..<rs]"
  then have "j < rs" by simp
  then show "take (nst * 6) (drop (i * bin_len nst + 3) s) ! (j * 6 + c)
      = s ! (i * bin_len nst + 3 + j * 6 + c)"
    using assms by (intro block_nth) (simp_all add: bin_len_def)
qed

lemma load_binary_node_ok:
  assumes st: "stream st = drop (i * bin_len nst) s"
    and len: "i * bin_len nst + bin_len nst \<le> length s"
    and bufs: "length (tmpsrc st) = 3" "length (tmpta st) = nst * 6"
    and pos: "0 < nst" "rs \<le> nst"
    and fits: "fits st (Suc i) rs"
  shows "load_binary_node (int rs) (int nst) 3 NZ i st =
     st\<lparr>stream := drop (i * bin_len nst + bin_len nst) s,
        tmpsrc := map sint (take 3 (drop (i * bin_len nst) s)),
        tmpta := take (nst * 6) (drop (i * bin_len nst + 3) s),
        tpsrc := overwrite (tpsrc st) (i * 3) (bin_pos NZ nst s i),
        taxx := overwrite (taxx st) (i * rs) (bin_row nst rs 0 s i),
        tayy := overwrite (tayy st) (i * rs) (bin_row nst rs 1 s i),
        tazz := overwrite (tazz st) (i * rs) (bin_row nst rs 2 s i),
        taxz := overwrite (taxz st) (i * rs) (bin_row nst rs 3 s i),
        tayz := overwrite (tayz st) (i * rs) (bin_row nst rs 4 s i),
        taxy := overwrite (taxy st) (i * rs) (bin_row nst rs 5 s i),
        calls := calls st @ [Ev_fread 3, Ev_fread (nst * 6)]\<rparr>"
proof -
  let ?p = "i * bin_len nst"
  have r1: "fread sint (tmpsrc st) 3 (stream st)
      = (map sint (take 3 (drop ?p s)), 3, drop (?p + 3) s)"
    using len bufs by (simp add: st fread_full bin_len_def ac_simps)
  have r2: "fread id ta (nst * 6) (drop (?p + 3) s)
      = (take (nst * 6) (drop (?p + 3) s), nst * 6, drop (?p + bin_len nst) s)"
    if "length ta = nst * 6" for ta
    using len that by (simp add: fread_full bin_len_def ac_simps)
  have src: "map sint (take 3 (drop ?p s)) ! 0 = sint (s ! ?p)"
    "map sint (take 3 (drop ?p s)) ! Suc 0 = sint (s ! (?p + 1))"
    "map sint (take 3 (drop ?p s)) ! 2 = sint (s ! (?p + 2))"
    using len by (simp_all add: bin_len_def)
  have f3: "i * 3 + 3 \<le> length (tpsrc st)"
    using fits by (simp add: fits_def)
  let ?st2 = "st\<lparr>tmpsrc := map sint (take 3 (drop ?p s)),
        stream := drop (?p + bin_len nst) s,
        tmpta := take (nst * 6) (drop (?p + 3) s),
        calls := calls st @ [Ev_fread 3, Ev_fread (nst * 6)],
        tpsrc := overwrite (tpsrc st) (i * 3) (bin_pos NZ nst s i)\<rparr>"
  have fits2: "fits ?st2 (Suc i) rs"
    using fits f3 by (simp add: fits_def bin_pos_def)
  have "load_binary_node (int rs) (int nst) 3 NZ i st = fold (copy_sample (int rs) i) [0..<rs] ?st2"
    using pos f3 bufs
    by (simp add: load_binary_node_def r1 r2 Let_def src update3_overwrite_Suc bin_pos_def)
  also have "\<dots> = ?st2\<lparr>
        taxx := overwrite (taxx st) (i * rs) (bin_row nst rs 0 s i),
        tayy := overwrite (tayy st) (i * rs) (bin_row nst rs 1 s i),
        tazz := overwrite (tazz st) (i * rs) (bin_row nst rs 2 s i),
        taxz := overwrite (taxz st) (i * rs) (bin_row nst rs 3 s i),
        tayz := overwrite (tayz st) (i * rs) (bin_row nst rs 4 s i),
        taxy := overwrite (taxy st) (i * rs) (bin_row nst rs 5 s i)\<rparr>"
    using block_row [OF pos(2) _ len, of 0] block_row [OF pos(2) _ len, of 1]
      block_row [OF pos(2) _ len, of 2] block_row [OF pos(2) _ len, of 3]
      block_row [OF pos(2) _ len, of 4] block_row [OF pos(2) _ len, of 5]
    by (simp add: copy_samples [OF fits2])
  finally show ?thesis by simp
qed

lemma length_bin_pos [simp]: "length (bin_pos NZ nst s i) = 3"
  by (simp add: bin_pos_def)

lemma length_bin_row [simp]: "length (bin_row nst rs c s i) = rs"
  by (simp add: bin_row_def)

lemma length_concat_bin_pos [simp]:
  "length (concat (map (bin_pos NZ nst s) xs)) = length xs * 3"
  by (induction xs) simp_all

lemma length_concat_bin_row [simp]:
  "length (concat (map (bin_row nst rs c s) xs)) = length xs * rs"
  by (induction xs) simp_all

lemma fits_mono: "fits st (Suc n) rs \<Longrightarrow> fits st n rs"
  by (simp add: fits_def)

lemma load_binary_prefix:
  assumes "stream st0 = s" "length (tmpsrc st0) = 3" "length (tmpta st0) = nst * 6"
    "0 < nst" "rs \<le> nst"
  shows "n * bin_len nst \<le> length s \<Longrightarrow> fits st0 n rs \<Longrightarrow>
    \<exists>src ta. length src = 3 \<and> length ta = nst * 6 \<and>
      fold (load_binary_node (int rs) (int nst) 3 NZ) [0..<n] st0 =
        st0\<lparr>stream := drop (n * bin_len nst) s, tmpsrc := src, tmpta := ta,
           tpsrc := overwrite (tpsrc st0) 0 (concat (map (bin_pos NZ nst s) [0..<n])),
           taxx := overwrite (taxx st0) 0 (concat (map (bin_row nst rs 0 s) [0..<n])),
           tayy := overwrite (tayy st0) 0 (concat (map (bin_row nst rs 1 s) [0..<n])),
           tazz := overwrite (tazz st0) 0 (concat (map (bin_row nst rs 2 s) [0..<n])),
           taxz := overwrite (taxz st0) 0 (concat (map (bin_row nst rs 3 s) [0..<n])),
           tayz := overwrite (tayz st0) 0 (concat (map (bin_row nst rs 4 s) [0..<n])),
           taxy := overwrite (taxy st0) 0 (concat (map (bin_row nst rs 5 s) [0..<n])),
           calls := calls st0 @ concat (replicate n [Ev_fread 3, Ev_fread (nst * 6)])\<rparr>"
proof (induction n)
  case 0
  show ?case
    by (rule exI [of _ "tmpsrc st0"], rule exI [of _ "tmpta st0"]) (simp add: assms)
next
  case (Suc n)
  let ?R = "bin_len nst"
  from Suc.prems have len: "n * ?R + ?R \<le> length s" and lenn: "n * ?R \<le> length s"
    by simp_all
  from Suc.prems have fit: "fits st0 (Suc n) rs" by simp
  then have fitn: "fits st0 n rs" by (rule fits_mono)
  from Suc.IH [OF lenn fitn] obtain src ta where
    bufs: "length src = 3" "length ta = nst * 6" and
    eq: "fold (load_binary_node (int rs) (int nst) 3 NZ) [0..<n] st0 =
        st0\<lparr>stream := drop (n * ?R) s, tmpsrc := src, tmpta := ta,
           tpsrc := overwrite (tpsrc st0) 0 (concat (map (bin_pos NZ nst s) [0..<n])),
           taxx := overwrite (taxx st0) 0 (concat (map (bin_row nst rs 0 s) [0..<n])),
           tayy := overwrite (tayy st0) 0 (concat (map (bin_row nst rs 1 s) [0..<n])),
           tazz := overwrite (tazz st0) 0 (concat (map (bin_row nst rs 2 s) [0..<n])),
           taxz := overwrite (taxz st0) 0 (concat (map (bin_row nst rs 3 s) [0..<n])),
           tayz := overwrite (tayz st0) 0 (concat (map (bin_row nst rs 4 s) [0..<n])),
           taxy := overwrite (taxy st0) 0 (concat (map (bin_row nst rs 5 s) [0..<n])),
           calls := calls st0 @ concat (replicate n [Ev_fread 3, Ev_fread (nst * 6)])\<rparr>"
      (is "_ = ?st")
    by blast
  have fit': "fits ?st (Suc n) rs"
    using fit by (simp add: fits_def)
  have step: "load_binary_node (int rs) (int nst) 3 NZ n ?st = 
      ?st\<lparr>stream := drop (n * ?R + ?R) s,
        tmpsrc := map sint (take 3 (drop (n * ?R) s)),
        tmpta := take (nst * 6) (drop (n * ?R + 3) s),
        tpsrc := overwrite (tpsrc ?st) (n * 3) (bin_pos NZ nst s n),
        taxx := overwrite (taxx ?st) (n * rs) (bin_row nst rs 0 s n),
        tayy := overwrite (tayy ?st) (n * rs) (bin_row nst rs 1 s n),
        tazz := overwrite (tazz ?st) (n * rs) (bin_row nst rs 2 s n),
        taxz := overwrite (taxz ?st) (n * rs) (bin_row nst rs 3 s n),
        tayz := overwrite (tayz ?st) (n * rs) (bin_row nst rs 4 s n),
        taxy := overwrite (taxy ?st) (n * rs) (bin_row nst rs 5 s n),
        calls := calls ?st @ [Ev_fread 3, Ev_fread (nst * 6)]\<rparr>"
    by (rule load_binary_node_ok [OF _ len _ _ assms(4,5) fit']) (simp_all add: bufs)
  have "fold (load_binary_node (int rs) (int nst) 3 NZ) [0..<Suc n] st0
      = load_binary_node (int rs) (int nst) 3 NZ n
          (fold (load_binary_node (int rs) (int nst) 3 NZ) [0..<n] st0)"
    by simp
  also have "\<dots> = load_binary_node (int rs) (int nst) 3 NZ n ?st"
    by (simp only: eq)
  also note step
  also have "?st\<lparr>stream := drop (n * ?R + ?R) s,
        tmpsrc := map sint (take 3 (drop (n * ?R) s)),
        tmpta := take (nst * 6) (drop (n * ?R + 3) s),
        tpsrc := overwrite (tpsrc ?st) (n * 3) (bin_pos NZ nst s n),
        taxx := overwrite (taxx ?st) (n * rs) (bin_row nst rs 0 s n),
        tayy := overwrite (tayy ?st) (n * rs) (bin_row nst rs 1 s n),
        tazz := overwrite (tazz ?st) (n * rs) (bin_row nst rs 2 s n),
        taxz := overwrite (taxz ?st) (n * rs) (bin_row nst rs 3 s n),
        tayz := overwrite (tayz ?st) (n * rs) (bin_row nst rs 4 s n),
        taxy := overwrite (taxy ?st) (n * rs) (bin_row nst rs 5 s n),
        calls := calls ?st @ [Ev_fread 3, Ev_fread (nst * 6)]\<rparr>
     = st0\<lparr>stream := drop (Suc n * ?R) s,
           tmpsrc := map sint (take 3 (drop (n * ?R) s)),
           tmpta := take (nst * 6) (drop (n * ?R + 3) s),
           tpsrc := overwrite (tpsrc st0) 0 (concat (map (bin_pos NZ nst s) [0..<Suc n])),
           taxx := overwrite (taxx st0) 0 (concat (map (bin_row nst rs 0 s) [0..<Suc n])),
           tayy := overwrite (tayy st0) 0 (concat (map (bin_row nst rs 1 s) [0..<Suc n])),
           tazz := overwrite (tazz st0) 0 (concat (map (bin_row nst rs 2 s) [0..<Suc n])),
           taxz := overwrite (taxz st0) 0 (concat (map (bin_row nst rs 3 s) [0..<Suc n])),
           tayz := overwrite (tayz st0) 0 (concat (map (bin_row nst rs 4 s) [0..<Suc n])),
           taxy := overwrite (taxy st0) 0 (concat (map (bin_row nst rs 5 s) [0..<Suc n])),
           calls := calls st0 @ concat (replicate (Suc n) [Ev_fread 3, Ev_fread (nst * 6)])\<rparr>"
    using fit
    by (simp add: fits_def overwrite_snoc concat_replicate_Suc ac_simps del: replicate_Suc)
  finally have final: "fold (load_binary_node (int rs) (int nst) 3 NZ) [0..<Suc n] st0
     = st0\<lparr>stream := drop (Suc n * ?R) s,
           tmpsrc := map sint (take 3 (drop (n * ?R) s)),
           tmpta := take (nst * 6) (drop (n * ?R + 3) s),
           tpsrc := overwrite (tpsrc st0) 0 (concat (map (bin_pos NZ nst s) [0..<Suc n])),
           taxx := overwrite (taxx st0) 0 (concat (map (bin_row nst rs 0 s) [0..<Suc n])),
           tayy := overwrite (tayy st0) 0 (concat (map (bin_row nst rs 1 s) [0..<Suc n])),
           tazz := overwrite (tazz st0) 0 (concat (map (bin_row nst rs 2 s) [0..<Suc n])),
           taxz := overwrite (taxz st0) 0 (concat (map (bin_row nst rs 3 s) [0..<Suc n])),
           tayz := overwrite (tayz st0) 0 (concat (map (bin_row nst rs 4 s) [0..<Suc n])),
           taxy := overwrite (taxy st0) 0 (concat (map (bin_row nst rs 5 s) [0..<Suc n])),
           calls := calls st0 @ concat (replicate (Suc n) [Ev_fread 3, Ev_fread (nst * 6)])\<rparr>" .
  have l1: "length (map sint (take 3 (drop (n * ?R) s))) = 3"
    using len by (simp add: bin_len_def)
  have l2: "length (take (nst * 6) (drop (n * ?R + 3) s)) = nst * 6"
    using len by (simp add: bin_len_def)
  show ?case
    by (rule exI, rule exI, intro conjI, rule l1, rule l2, rule final)
qed

subsection \<open>Text mode\<close>

lemma as_int_of: "as_int t \<noteq> None \<Longrightarrow> the (as_int t) = int_of t"
  by (cases t) simp_all

lemma as_float_of: "as_float t \<noteq> None \<Longrightarrow> the (as_float t) = float_of t"
  by (cases t) simp_all

lemma fscanf_all:
  "n \<le> length ts \<Longrightarrow> (\<forall>m<n. conv (ts ! m) \<noteq> None) \<Longrightarrow>
     fscanf conv n ts = (map (\<lambda>t. the (conv t)) (take n ts), drop n ts)"
proof (induction n arbitrary: ts)
  case 0
  then show ?case by simp
next
  case (Suc n)
  then obtain t ts' where ts: "ts = t # ts'" by (cases ts) auto
  from Suc.prems ts have "conv t \<noteq> None" by auto
  then obtain v where v: "conv t = Some v" by auto
  from Suc.prems ts have "fscanf conv n ts' = (map (\<lambda>t. the (conv t)) (take n ts'), drop n ts')"
    by (intro Suc.IH) auto
  with ts v show ?case by simp
qed

lemma fscanf_ints:
  assumes "p + 3 \<le> length ts" "\<forall>c<3. as_int (ts ! (p + c)) \<noteq> None"
  shows "fscanf as_int 3 (drop p ts)
           = ([int_of (ts ! p), int_of (ts ! (p + 1)), int_of (ts ! (p + 2))], drop (p + 3) ts)"
proof -
  have "fscanf as_int 3 (drop p ts)
      = (map (\<lambda>t. the (as_int t)) (take 3 (drop p ts)), drop 3 (drop p ts))"
    using assms by (intro fscanf_all) simp_all
  moreover have "take 3 (drop p ts) = [ts ! p, ts ! (p + 1), ts ! (p + 2)]"
    using assms(1) by (simp add: take_drop_nth upt_3)
  moreover have "as_int (ts ! p) \<noteq> None" "as_int (ts ! (p + 1)) \<noteq> None"
    "as_int (ts ! (p + 2)) \<noteq> None"
    using assms(2) [rule_format, of 0] assms(2) [rule_format, of 1] assms(2) [rule_format, of 2]
    by simp_all
  ultimately show ?thesis by (simp add: as_int_of add.commute)
qed

lemma fscanf_floats:
  assumes "p + 6 \<le> length ts" "\<forall>c<6. as_float (ts ! (p + c)) \<noteq> None"
  shows "fscanf as_float 6 (drop p ts)
           = ([float_of (ts ! p), float_of (ts ! (p + 1)), float_of (ts ! (p + 2)),
               float_of (ts ! (p + 3)), float_of (ts ! (p + 4)), float_of (ts ! (p + 5))],
              drop (p + 6) ts)"
proof -
  have "fscanf as_float 6 (drop p ts)
      = (map (\<lambda>t. the (as_float t)) (take 6 (drop p ts)), drop 6 (drop p ts))"
    using assms by (intro fscanf_all) simp_all
  moreover have "take 6 (drop p ts)
      = [ts ! p, ts ! (p + 1), ts ! (p + 2), ts ! (p + 3), ts ! (p + 4), ts ! (p + 5)]"
    using assms(1) by (simp add: take_drop_nth upt_6)
  moreover have "as_float (ts ! p) \<noteq> None" "as_float (ts ! (p + 1)) \<noteq> None"
    "as_float (ts ! (p + 2)) \<noteq> None" "as_float (ts ! (p + 3)) \<noteq> None"
    "as_float (ts ! (p + 4)) \<noteq> None" "as_float (ts ! (p + 5)) \<noteq> None"
    using assms(2) [rule_format, of 0] assms(2) [rule_format, of 1] assms(2) [rule_format, of 2]
      assms(2) [rule_format, of 3] assms(2) [rule_format, of 4] assms(2) [rule_format, of 5]
    by simp_all
  ultimately show ?thesis by (simp add: as_float_of add.commute)
qed

lemma scan_sample_ok:
  assumes "stream st = drop p ts" "p + 6 \<le> length ts"
    "\<forall>c<6. as_float (ts ! (p + c)) \<noteq> None"
  shows "scan_sample (int rs) i j st =
     st\<lparr>stream := drop (p + 6) ts,
        taxx := (taxx st)[i * rs + j := float_of (ts ! p)],
        tayy := (tayy st)[i * rs + j := float_of (ts ! (p + 1))],
        tazz := (tazz st)[i * rs + j := float_of (ts ! (p + 2))],
        taxz := (taxz st)[i * rs + j := float_of (ts ! (p + 3))],
        tayz := (tayz st)[i * rs + j := float_of (ts ! (p + 4))],
        taxy := (taxy st)[i * rs + j := float_of (ts ! (p + 5))],
        calls := calls st @ [Ev_fscanf]\<rparr>"
  using assms(1) by (simp add: scan_sample_def fscanf_floats [OF assms(2,3)] store_def Let_def)

lemma scan_samples:
  assumes st: "stream st = drop p ts" and len: "p + rs * 6 \<le> length ts"
    and fl: "\<forall>c<rs * 6. as_float (ts ! (p + c)) \<noteq> None"
    and fits: "fits st (Suc i) rs"
  shows "m \<le> rs \<Longrightarrow>
    fold (scan_sample (int rs) i) [0..<m] st =
     st\<lparr>stream := drop (p + m * 6) ts,
        taxx := overwrite (taxx st) (i * rs) (map (\<lambda>j. float_of (ts ! (p + j * 6))) [0..<m]),
        tayy := overwrite (tayy st) (i * rs) (map (\<lambda>j. float_of (ts ! (p + j * 6 + 1))) [0..<m]),
        tazz := overwrite (tazz st) (i * rs) (map (\<lambda>j. float_of (ts ! (p + j * 6 + 2))) [0..<m]),
        taxz := overwrite (taxz st) (i * rs) (map (\<lambda>j. float_of (ts ! (p + j * 6 + 3))) [0..<m]),
        tayz := overwrite (tayz st) (i * rs) (map (\<lambda>j. float_of (ts ! (p + j * 6 + 4))) [0..<m]),
        taxy := overwrite (taxy st) (i * rs) (map (\<lambda>j. float_of (ts ! (p + j * 6 + 5))) [0..<m]),
        calls := calls st @ replicate m Ev_fscanf\<rparr>"
proof (induction m)
  case 0
  then show ?case by (simp add: st)
next
  case (Suc m)
  then have m: "m < rs" "m \<le> rs" by simp_all
  let ?s = "st\<lparr>stream := drop (p + m * 6) ts,
        taxx := overwrite (taxx st) (i * rs) (map (\<lambda>j. float_of (ts ! (p + j * 6))) [0..<m]),
        tayy := overwrite (tayy st) (i * rs) (map (\<lambda>j. float_of (ts ! (p + j * 6 + 1))) [0..<m]),
        tazz := overwrite (tazz st) (i * rs) (map (\<lambda>j. float_of (ts ! (p + j * 6 + 2))) [0..<m]),
        taxz := overwrite (taxz st) (i * rs) (map (\<lambda>j. float_of (ts ! (p + j * 6 + 3))) [0..<m]),
        tayz := overwrite (tayz st) (i * rs) (map (\<lambda>j. float_of (ts ! (p + j * 6 + 4))) [0..<m]),
        taxy := overwrite (taxy st) (i * rs) (map (\<lambda>j. float_of (ts ! (p + j * 6 + 5))) [0..<m]),
        calls := calls st @ replicate m Ev_fscanf\<rparr>"
  from m have m6: "m * 6 + 6 \<le> rs * 6" by simp
  have len': "p + m * 6 + 6 \<le> length ts"
    using len m6 by simp
  have fl': "\<forall>c<6. as_float (ts ! (p + m * 6 + c)) \<noteq> None"
  proof (intro allI impI)
    fix c :: nat assume "c < 6"
    with m6 have "m * 6 + c < rs * 6" by simp
    with fl show "as_float (ts ! (p + m * 6 + c)) \<noteq> None" by (simp add: add.assoc)
  qed
  have room: "i * rs + m < length (taxx st)" "i * rs + m < length (tayy st)"
    "i * rs + m < length (tazz st)" "i * rs + m < length (taxz st)"
    "i * rs + m < length (tayz st)" "i * rs + m < length (taxy st)"
    using fits m by (simp_all add: fits_def)
  have "fold (scan_sample (int rs) i) [0..<Suc m] st
      = scan_sample (int rs) i m (fold (scan_sample (int rs) i) [0..<m] st)"
    by simp
  also have "\<dots> = scan_sample (int rs) i m ?s"
    by (simp only: Suc.IH [OF m(2)])
  also have "\<dots> = ?s\<lparr>stream := drop (p + m * 6 + 6) ts,
        taxx := (taxx ?s)[i * rs + m := float_of (ts ! (p + m * 6))],
        tayy := (tayy ?s)[i * rs + m := float_of (ts ! (p + m * 6 + 1))],
        tazz := (tazz ?s)[i * rs + m := float_of (ts ! (p + m * 6 + 2))],
        taxz := (taxz ?s)[i * rs + m := float_of (ts ! (p + m * 6 + 3))],
        tayz := (tayz ?s)[i * rs + m := float_of (ts ! (p + m * 6 + 4))],
        taxy := (taxy ?s)[i * rs + m := float_of (ts ! (p + m * 6 + 5))],
        calls := calls ?s @ [Ev_fscanf]\<rparr>"
    by (rule scan_sample_ok [OF _ len' fl']) simp
  also have "\<dots> = st\<lparr>stream := drop (p + m * 6 + 6) ts,
        taxx := overwrite (taxx st) (i * rs) (map (\<lambda>j. float_of (ts ! (p + j * 6))) [0..<Suc m]),
        tayy := overwrite (tayy st) (i * rs) (map (\<lambda>j. float_of (ts ! (p + j * 6 + 1))) [0..<Suc m]),
        tazz := overwrite (tazz st) (i * rs) (map (\<lambda>j. float_of (ts ! (p + j * 6 + 2))) [0..<Suc m]),
        taxz := overwrite (taxz st) (i * rs) (map (\<lambda>j. float_of (ts ! (p + j * 6 + 3))) [0..<Suc m]),
        tayz := overwrite (tayz st) (i * rs) (map (\<lambda>j. float_of (ts ! (p + j * 6 + 4))) [0..<Suc m]),
        taxy := overwrite (taxy st) (i * rs) (map (\<lambda>j. float_of (ts ! (p + j * 6 + 5))) [0..<Suc m]),
        calls := calls st @ replicate (Suc m) Ev_fscanf\<rparr>"
    using room
    by (simp add: overwrite_update_snoc replicate_append_same add.assoc)
  finally show ?case by (simp add: ac_simps)
qed

lemma length_txt_pos [simp]: "length (txt_pos NZ rs ts i) = 3"
  by (simp add: txt_pos_def)

lemma length_txt_row [simp]: "length (txt_row rs c ts i) = rs"
  by (simp add: txt_row_def)

lemma length_concat_txt_pos [simp]:
  "length (concat (map (txt_pos NZ rs ts) xs)) = length xs * 3"
  by (induction xs) simp_all

lemma length_concat_txt_row [simp]:
  "length (concat (map (txt_row rs c ts) xs)) = length xs * rs"
  by (induction xs) simp_all

lemma load_text_node_ok:
  assumes st: "stream st = drop (i * txt_len rs) ts"
    and len: "i * txt_len rs + txt_len rs \<le> length ts"
    and ints: "\<forall>c<3. as_int (ts ! (i * txt_len rs + c)) \<noteq> None"
    and floats: "\<forall>m<rs * 6. as_float (ts ! (i * txt_len rs + 3 + m)) \<noteq> None"
    and buf: "length (tmpsrc st) = 3"
    and fits: "fits st (Suc i) rs"
  shows "load_text_node (int rs) 3 NZ i st =
     st\<lparr>stream := drop (i * txt_len rs + txt_len rs) ts,
        tmpsrc := [int_of (ts ! (i * txt_len rs)), int_of (ts ! (i * txt_len rs + 1)),
                   int_of (ts ! (i * txt_len rs + 2))],
        tpsrc := overwrite (tpsrc st) (i * 3) (txt_pos NZ rs ts i),
        taxx := overwrite (taxx st) (i * rs) (txt_row rs 0 ts i),
        tayy := overwrite (tayy st) (i * rs) (txt_row rs 1 ts i),
        tazz := overwrite (tazz st) (i * rs) (txt_row rs 2 ts i),
        taxz := overwrite (taxz st) (i * rs) (txt_row rs 3 ts i),
        tayz := overwrite (tayz st) (i * rs) (txt_row rs 4 ts i),
        taxy := overwrite (taxy st) (i * rs) (txt_row rs 5 ts i),
        calls := calls st @ Ev_fscanf # replicate rs Ev_fscanf\<rparr>"
proof -
  let ?p = "i * txt_len rs"
  have len3: "?p + 3 \<le> length ts" and len6: "?p + 3 + rs * 6 \<le> length ts"
    using len by (simp_all add: txt_len_def)
  have f3: "i * 3 + 3 \<le> length (tpsrc st)"
    using fits by (simp add: fits_def)
  let ?st1 = "st\<lparr>stream := drop (?p + 3) ts,
        tmpsrc := [int_of (ts ! ?p), int_of (ts ! (?p + 1)), int_of (ts ! (?p + 2))],
        tpsrc := overwrite (tpsrc st) (i * 3) (txt_pos NZ rs ts i),
        calls := calls st @ [Ev_fscanf]\<rparr>"
  have fits1: "fits ?st1 (Suc i) rs"
    using fits f3 by (simp add: fits_def)
  have "load_text_node (int rs) 3 NZ i st = fold (scan_sample (int rs) i) [0..<rs] ?st1"
    using buf f3
    by (simp add: load_text_node_def st fscanf_ints [OF len3 ints] Let_def
        update3_overwrite_Suc txt_pos_def)
  also have "\<dots> = ?st1\<lparr>stream := drop (?p + 3 + rs * 6) ts,
        taxx := overwrite (taxx ?st1) (i * rs) (map (\<lambda>j. float_of (ts ! (?p + 3 + j * 6))) [0..<rs]),
        tayy := overwrite (tayy ?st1) (i * rs) (map (\<lambda>j. float_of (ts ! (?p + 3 + j * 6 + 1))) [0..<rs]),
        tazz := overwrite (tazz ?st1) (i * rs) (map (\<lambda>j. float_of (ts ! (?p + 3 + j * 6 + 2))) [0..<rs]),
        taxz := overwrite (taxz ?st1) (i * rs) (map (\<lambda>j. float_of (ts ! (?p + 3 + j * 6 + 3))) [0..<rs]),
        tayz := overwrite (tayz ?st1) (i * rs) (map (\<lambda>j. float_of (ts ! (?p + 3 + j * 6 + 4))) [0..<rs]),
        taxy := overwrite (taxy ?st1) (i * rs) (map (\<lambda>j. float_of (ts ! (?p + 3 + j * 6 + 5))) [0..<rs]),
        calls := calls ?st1 @ replicate rs Ev_fscanf\<rparr>"
    by (rule scan_samples [OF _ len6 floats fits1]) simp_all
  also have "\<dots> = st\<lparr>stream := drop (?p + txt_len rs) ts,
        tmpsrc := [int_of (ts ! ?p), int_of (ts ! (?p + 1)), int_of (ts ! (?p + 2))],
        tpsrc := overwrite (tpsrc st) (i * 3) (txt_pos NZ rs ts i),
        taxx := overwrite (taxx st) (i * rs) (txt_row rs 0 ts i),
        tayy := overwrite (tayy st) (i * rs) (txt_row rs 1 ts i),
        tazz := overwrite (tazz st) (i * rs) (txt_row rs 2 ts i),
        taxz := overwrite (taxz st) (i * rs) (txt_row rs 3 ts i),
        tayz := overwrite (tayz st) (i * rs) (txt_row rs 4 ts i),
        taxy := overwrite (taxy st) (i * rs) (txt_row rs 5 ts i),
        calls := calls st @ Ev_fscanf # replicate rs Ev_fscanf\<rparr>"
    by (simp add: txt_row_def txt_len_def add.assoc)
  finally show ?thesis .
qed

lemma text_records_Suc:
  assumes "text_records rs (Suc n) ts"
  shows "text_records rs n ts" "n * txt_len rs + txt_len rs \<le> length ts"
    "\<forall>c<3. as_int (ts ! (n * txt_len rs + c)) \<noteq> None"
    "\<forall>m<rs * 6. as_float (ts ! (n * txt_len rs + 3 + m)) \<noteq> None"
  using assms by (simp_all add: text_records_def)

lemma load_text_prefix:
  assumes "stream st0 = ts" "length (tmpsrc st0) = 3"
  shows "text_records rs n ts \<Longrightarrow> fits st0 n rs \<Longrightarrow>
    \<exists>src. length src = 3 \<and>
      fold (load_text_node (int rs) 3 NZ) [0..<n] st0 =
        st0\<lparr>stream := drop (n * txt_len rs) ts, tmpsrc := src,
           tpsrc := overwrite (tpsrc st0) 0 (concat (map (txt_pos NZ rs ts) [0..<n])),
           taxx := overwrite (taxx st0) 0 (concat (map (txt_row rs 0 ts) [0..<n])),
           tayy := overwrite (tayy st0) 0 (concat (map (txt_row rs 1 ts) [0..<n])),
           tazz := overwrite (tazz st0) 0 (concat (map (txt_row rs 2 ts) [0..<n])),
           taxz := overwrite (taxz st0) 0 (concat (map (txt_row rs 3 ts) [0..<n])),
           tayz := overwrite (tayz st0) 0 (concat (map (txt_row rs 4 ts) [0..<n])),
           taxy := overwrite (taxy st0) 0 (concat (map (txt_row rs 5 ts) [0..<n])),
           calls := calls st0 @ concat (replicate n (Ev_fscanf # replicate rs Ev_fscanf))\<rparr>"
proof (induction n)
  case 0
  show ?case
    by (rule exI [of _ "tmpsrc st0"]) (simp add: assms)
next
  case (Suc n)
  let ?R = "txt_len rs"
  note rec = text_records_Suc [OF Suc.prems(1)]
  from Suc.prems have fit: "fits st0 (Suc n) rs" by simp
  then have fitn: "fits st0 n rs" by (rule fits_mono)
  from Suc.IH [OF rec(1) fitn] obtain src where
    buf: "length src = 3" and
    eq: "fold (load_text_node (int rs) 3 NZ) [0..<n] st0 =
        st0\<lparr>stream := drop (n * ?R) ts, tmpsrc := src,
           tpsrc := overwrite (tpsrc st0) 0 (concat (map (txt_pos NZ rs ts) [0..<n])),
           taxx := overwrite (taxx st0) 0 (concat (map (txt_row rs 0 ts) [0..<n])),
           tayy := overwrite (tayy st0) 0 (concat (map (txt_row rs 1 ts) [0..<n])),
           tazz := overwrite (tazz st0) 0 (concat (map (txt_row rs 2 ts) [0..<n])),
           taxz := overwrite (taxz st0) 0 (concat (map (txt_row rs 3 ts) [0..<n])),
           tayz := overwrite (tayz st0) 0 (concat (map (txt_row rs 4 ts) [0..<n])),
           taxy := overwrite (taxy st0) 0 (concat (map (txt_row rs 5 ts) [0..<n])),
           calls := calls st0 @ concat (replicate n (Ev_fscanf # replicate rs Ev_fscanf))\<rparr>"
      (is "_ = ?st")
    by blast
  have fit': "fits ?st (Suc n) rs"
    using fit by (simp add: fits_def)
  have step: "load_text_node (int rs) 3 NZ n ?st =
     ?st\<lparr>stream := drop (n * ?R + ?R) ts,
        tmpsrc := [int_of (ts ! (n * ?R)), int_of (ts ! (n * ?R + 1)), int_of (ts ! (n * ?R + 2))],
        tpsrc := overwrite (tpsrc ?st) (n * 3) (txt_pos NZ rs ts n),
        taxx := overwrite (taxx ?st) (n * rs) (txt_row rs 0 ts n),
        tayy := overwrite (tayy ?st) (n * rs) (txt_row rs 1 ts n),
        tazz := overwrite (tazz ?st) (n * rs) (txt_row rs 2 ts n),
        taxz := overwrite (taxz ?st) (n * rs) (txt_row rs 3 ts n),
        tayz := overwrite (tayz ?st) (n * rs) (txt_row rs 4 ts n),
        taxy := overwrite (taxy ?st) (n * rs) (txt_row rs 5 ts n),
        calls := calls ?st @ Ev_fscanf # replicate rs Ev_fscanf\<rparr>"
    by (rule load_text_node_ok [OF _ rec(2,3,4) _ fit']) (simp_all add: buf)
  have "fold (load_text_node (int rs) 3 NZ) [0..<Suc n] st0
      = load_text_node (int rs) 3 NZ n (fold (load_text_node (int rs) 3 NZ) [0..<n] st0)"
    by simp
  also have "\<dots> = load_text_node (int rs) 3 NZ n ?st"
    by (simp only: eq)
  also note step
  also have "?st\<lparr>stream := drop (n * ?R + ?R) ts,
        tmpsrc := [int_of (ts ! (n * ?R)), int_of (ts ! (n * ?R + 1)), int_of (ts ! (n * ?R + 2))],
        tpsrc := overwrite (tpsrc ?st) (n * 3) (txt_pos NZ rs ts n),
        taxx := overwrite (taxx ?st) (n * rs) (txt_row rs 0 ts n),
        tayy := overwrite (tayy ?st) (n * rs) (txt_row rs 1 ts n),
        tazz := overwrite (tazz ?st) (n * rs) (txt_row rs 2 ts n),
        taxz := overwrite (taxz ?st) (n * rs) (txt_row rs 3 ts n),
        tayz := overwrite (tayz ?st) (n * rs) (txt_row rs 4 ts n),
        taxy := overwrite (taxy ?st) (n * rs) (txt_row rs 5 ts n),
        calls := calls ?st @ Ev_fscanf # replicate rs Ev_fscanf\<rparr>
     = st0\<lparr>stream := drop (Suc n * ?R) ts,
           tmpsrc := [int_of (ts ! (n * ?R)), int_of (ts ! (n * ?R + 1)), int_of (ts ! (n * ?R + 2))],
           tpsrc := overwrite (tpsrc st0) 0 (concat (map (txt_pos NZ rs ts) [0..<Suc n])),
           taxx := overwrite (taxx st0) 0 (concat (map (txt_row rs 0 ts) [0..<Suc n])),
           tayy := overwrite (tayy st0) 0 (concat (map (txt_row rs 1 ts) [0..<Suc n])),
           tazz := overwrite (tazz st0) 0 (concat (map (txt_row rs 2 ts) [0..<Suc n])),
           taxz := overwrite (taxz st0) 0 (concat (map (txt_row rs 3 ts) [0..<Suc n])),
           tayz := overwrite (tayz st0) 0 (concat (map (txt_row rs 4 ts) [0..<Suc n])),
           taxy := overwrite (taxy st0) 0 (concat (map (txt_row rs 5 ts) [0..<Suc n])),
           calls := calls st0 @ concat (replicate (Suc n) (Ev_fscanf # replicate rs Ev_fscanf))\<rparr>"
    using fit
    by (simp add: fits_def overwrite_snoc concat_replicate_Suc ac_simps del: replicate_Suc)
  finally have final: "fold (load_text_node (int rs) 3 NZ) [0..<Suc n] st0
     = st0\<lparr>stream := drop (Suc n * ?R) ts,
           tmpsrc := [int_of (ts ! (n * ?R)), int_of (ts ! (n * ?R + 1)), int_of (ts ! (n * ?R + 2))],
           tpsrc := overwrite (tpsrc st0) 0 (concat (map (txt_pos NZ rs ts) [0..<Suc n])),
           taxx := overwrite (taxx st0) 0 (concat (map (txt_row rs 0 ts) [0..<Suc n])),
           tayy := overwrite (tayy st0) 0 (concat (map (txt_row rs 1 ts) [0..<Suc n])),
           tazz := overwrite (tazz st0) 0 (concat (map (txt_row rs 2 ts) [0..<Suc n])),
           taxz := overwrite (taxz st0) 0 (concat (map (txt_row rs 3 ts) [0..<Suc n])),
           tayz := overwrite (tayz st0) 0 (concat (map (txt_row rs 4 ts) [0..<Suc n])),
           taxy := overwrite (taxy st0) 0 (concat (map (txt_row rs 5 ts) [0..<Suc n])),
           calls := calls st0 @ concat (replicate (Suc n) (Ev_fscanf # replicate rs Ev_fscanf))\<rparr>" .
  have l1: "length [int_of (ts ! (n * ?R)), int_of (ts ! (n * ?R + 1)), int_of (ts ! (n * ?R + 2))] = 3"
    by simp
  show ?case
    by (rule exI, intro conjI, rule l1, rule final)
qed

subsection \<open>The catalog after the loop\<close>

lemma fits_allocated: "fits (allocated e NSRC (int rs) 3 s ta evs) (nat NSRC) rs"
  by (simp add: fits_def allocated_def Alloc1P_def Alloc1D_def)

lemma load_binary_allocated:
  assumes "0 < nst" "rs \<le> nst" "nat NSRC * bin_len nst \<le> length s"
    and st: "st = load_binary NSRC (int rs) (int nst) 3 NZ
                (allocated e NSRC (int rs) 3 s (Alloc1D e (int nst * 6)) evs)"
  shows "stream st = drop (nat NSRC * bin_len nst) s"
    and "calls st = evs @ concat (replicate (nat NSRC) [Ev_fread 3, Ev_fread (nst * 6)])"
    and "tpsrc st = concat (map (bin_pos NZ nst s) [0..<nat NSRC])"
    and "taxx st = concat (map (bin_row nst rs 0 s) [0..<nat NSRC])"
    and "tayy st = concat (map (bin_row nst rs 1 s) [0..<nat NSRC])"
    and "tazz st = concat (map (bin_row nst rs 2 s) [0..<nat NSRC])"
    and "taxz st = concat (map (bin_row nst rs 3 s) [0..<nat NSRC])"
    and "tayz st = concat (map (bin_row nst rs 4 s) [0..<nat NSRC])"
    and "taxy st = concat (map (bin_row nst rs 5 s) [0..<nat NSRC])"
proof -
  let ?st0 = "allocated e NSRC (int rs) 3 s (Alloc1D e (int nst * 6)) evs"
  have "\<exists>src ta. length src = 3 \<and> length ta = nst * 6 \<and>
      fold (load_binary_node (int rs) (int nst) 3 NZ) [0..<nat NSRC] ?st0 =
        ?st0\<lparr>stream := drop (nat NSRC * bin_len nst) s, tmpsrc := src, tmpta := ta,
           tpsrc := overwrite (tpsrc ?st0) 0 (concat (map (bin_pos NZ nst s) [0..<nat NSRC])),
           taxx := overwrite (taxx ?st0) 0 (concat (map (bin_row nst rs 0 s) [0..<nat NSRC])),
           tayy := overwrite (tayy ?st0) 0 (concat (map (bin_row nst rs 1 s) [0..<nat NSRC])),
           tazz := overwrite (tazz ?st0) 0 (concat (map (bin_row nst rs 2 s) [0..<nat NSRC])),
           taxz := overwrite (taxz ?st0) 0 (concat (map (bin_row nst rs 3 s) [0..<nat NSRC])),
           tayz := overwrite (tayz ?st0) 0 (concat (map (bin_row nst rs 4 s) [0..<nat NSRC])),
           taxy := overwrite (taxy ?st0) 0 (concat (map (bin_row nst rs 5 s) [0..<nat NSRC])),
           calls := calls ?st0 @ concat (replicate (nat NSRC) [Ev_fread 3, Ev_fread (nst * 6)])\<rparr>"
    by (rule load_binary_prefix [OF _ _ _ assms(1,2,3) fits_allocated])
       (simp_all add: allocated_def Alloc1D_def)
  then obtain src ta where
    eq: "st = ?st0\<lparr>stream := drop (nat NSRC * bin_len nst) s, tmpsrc := src, tmpta := ta,
           tpsrc := overwrite (tpsrc ?st0) 0 (concat (map (bin_pos NZ nst s) [0..<nat NSRC])),
           taxx := overwrite (taxx ?st0) 0 (concat (map (bin_row nst rs 0 s) [0..<nat NSRC])),
           tayy := overwrite (tayy ?st0) 0 (concat (map (bin_row nst rs 1 s) [0..<nat NSRC])),
           tazz := overwrite (tazz ?st0) 0 (concat (map (bin_row nst rs 2 s) [0..<nat NSRC])),
           taxz := overwrite (taxz ?st0) 0 (concat (map (bin_row nst rs 3 s) [0..<nat NSRC])),
           tayz := overwrite (tayz ?st0) 0 (concat (map (bin_row nst rs 4 s) [0..<nat NSRC])),
           taxy := overwrite (taxy ?st0) 0 (concat (map (bin_row nst rs 5 s) [0..<nat NSRC])),
           calls := calls ?st0 @ concat (replicate (nat NSRC) [Ev_fread 3, Ev_fread (nst * 6)])\<rparr>"
    unfolding st load_binary_def by blast
  show "stream st = drop (nat NSRC * bin_len nst) s"
    and "calls st = evs @ concat (replicate (nat NSRC) [Ev_fread 3, Ev_fread (nst * 6)])"
    and "tpsrc st = concat (map (bin_pos NZ nst s) [0..<nat NSRC])"
    and "taxx st = concat (map (bin_row nst rs 0 s) [0..<nat NSRC])"
    and "tayy st = concat (map (bin_row nst rs 1 s) [0..<nat NSRC])"
    and "tazz st = concat (map (bin_row nst rs 2 s) [0..<nat NSRC])"
    and "taxz st = concat (map (bin_row nst rs 3 s) [0..<nat NSRC])"
    and "tayz st = concat (map (bin_row nst rs 4 s) [0..<nat NSRC])"
    and "taxy st = concat (map (bin_row nst rs 5 s) [0..<nat NSRC])"
    unfolding eq by (simp_all add: allocated_def Alloc1P_def Alloc1D_def overwrite_all)
qed

lemma load_text_allocated:
  assumes "text_records rs (nat NSRC) ts"
    and st: "st = load_text NSRC (int rs) 3 NZ (allocated e NSRC (int rs) 3 ts [] evs)"
  shows "stream st = drop (nat NSRC * txt_len rs) ts"
    and "calls st = evs @ concat (replicate (nat NSRC) (Ev_fscanf # replicate rs Ev_fscanf))"
    and "tpsrc st = concat (map (txt_pos NZ rs ts) [0..<nat NSRC])"
    and "taxx st = concat (map (txt_row rs 0 ts) [0..<nat NSRC])"
    and "tayy st = concat (map (txt_row rs 1 ts) [0..<nat NSRC])"
    and "tazz st = concat (map (txt_row rs 2 ts) [0..<nat NSRC])"
    and "taxz st = concat (map (txt_row rs 3 ts) [0..<nat NSRC])"
    and "tayz st = concat (map (txt_row rs 4 ts) [0..<nat NSRC])"
    and "taxy st = concat (map (txt_row rs 5 ts) [0..<nat NSRC])"
proof -
  let ?st0 = "allocated e NSRC (int rs) 3 ts [] evs"
  have "\<exists>src. length src = 3 \<and>
      fold (load_text_node (int rs) 3 NZ) [0..<nat NSRC] ?st0 =
        ?st0\<lparr>stream := drop (nat NSRC * txt_len rs) ts, tmpsrc := src,
           tpsrc := overwrite (tpsrc ?st0) 0 (concat (map (txt_pos NZ rs ts) [0..<nat NSRC])),
           taxx := overwrite (taxx ?st0) 0 (concat (map (txt_row rs 0 ts) [0..<nat NSRC])),
           tayy := overwrite (tayy ?st0) 0 (concat (map (txt_row rs 1 ts) [0..<nat NSRC])),
           tazz := overwrite (tazz ?st0) 0 (concat (map (txt_row rs 2 ts) [0..<nat NSRC])),
           taxz := overwrite (taxz ?st0) 0 (concat (map (txt_row rs 3 ts) [0..<nat NSRC])),
           tayz := overwrite (tayz ?st0) 0 (concat (map (txt_row rs 4 ts) [0..<nat NSRC])),
           taxy := overwrite (taxy ?st0) 0 (concat (map (txt_row rs 5 ts) [0..<nat NSRC])),
           calls := calls ?st0 @ concat (replicate (nat NSRC) (Ev_fscanf # replicate rs Ev_fscanf))\<rparr>"
    by (rule load_text_prefix [OF _ _ assms(1) fits_allocated])
       (simp_all add: allocated_def)
  then obtain src where
    eq: "st = ?st0\<lparr>stream := drop (nat NSRC * txt_len rs) ts, tmpsrc := src,
           tpsrc := overwrite (tpsrc ?st0) 0 (concat (map (txt_pos NZ rs ts) [0..<nat NSRC])),
           taxx := overwrite (taxx ?st0) 0 (concat (map (txt_row rs 0 ts) [0..<nat NSRC])),
           tayy := overwrite (tayy ?st0) 0 (concat (map (txt_row rs 1 ts) [0..<nat NSRC])),
           tazz := overwrite (tazz ?st0) 0 (concat (map (txt_row rs 2 ts) [0..<nat NSRC])),
           taxz := overwrite (taxz ?st0) 0 (concat (map (txt_row rs 3 ts) [0..<nat NSRC])),
           tayz := overwrite (tayz ?st0) 0 (concat (map (txt_row rs 4 ts) [0..<nat NSRC])),
           taxy := overwrite (taxy ?st0) 0 (concat (map (txt_row rs 5 ts) [0..<nat NSRC])),
           calls := calls ?st0 @ concat (replicate (nat NSRC) (Ev_fscanf # replicate rs Ev_fscanf))\<rparr>"
    unfolding st load_text_def by blast
  show "stream st = drop (nat NSRC * txt_len rs) ts"
    and "calls st = evs @ concat (replicate (nat NSRC) (Ev_fscanf # replicate rs Ev_fscanf))"
    and "tpsrc st = concat (map (txt_pos NZ rs ts) [0..<nat NSRC])"
    and "taxx st = concat (map (txt_row rs 0 ts) [0..<nat NSRC])"
    and "tayy st = concat (map (txt_row rs 1 ts) [0..<nat NSRC])"
    and "tazz st = concat (map (txt_row rs 2 ts) [0..<nat NSRC])"
    and "taxz st = concat (map (txt_row rs 3 ts) [0..<nat NSRC])"
    and "tayz st = concat (map (txt_row rs 4 ts) [0..<nat NSRC])"
    and "taxy st = concat (map (txt_row rs 5 ts) [0..<nat NSRC])"
    unfolding eq by (simp_all add: allocated_def Alloc1P_def Alloc1D_def overwrite_all)
qed

lemma bin_pos_concat:
  "i < n \<Longrightarrow> c < 3 \<Longrightarrow>
     concat (map (bin_pos NZ nst s) [0..<n]) ! (i * 3 + c) = bin_pos NZ nst s i ! c"
  using concat_nth_block [of i "[0..<n]" c 3 "bin_pos NZ nst s"] by simp

lemma txt_pos_concat:
  "i < n \<Longrightarrow> c < 3 \<Longrightarrow>
     concat (map (txt_pos NZ rs ts) [0..<n]) ! (i * 3 + c) = txt_pos NZ rs ts i ! c"
  using concat_nth_block [of i "[0..<n]" c 3 "txt_pos NZ rs ts"] by simp

lemma inisource_binary:
  "1 \<le> NSRC \<Longrightarrow> fopen e INSRC = Some f \<Longrightarrow>
   inisource e 1 NSRC READ_STEP NST 3 NZ INSRC INSRC_I2 out =
     Some \<lparr>ret = 0,
       outs = fst (resolve e NSRC READ_STEP 3
         (load_binary NSRC READ_STEP NST 3 NZ
           (allocated e NSRC READ_STEP 3 (items f) (Alloc1D e (NST * 6))
             (Ev_Alloc1P (NSRC * 3) # replicate 6 (Ev_Alloc1D (NSRC * READ_STEP))
                @ [Ev_fopen INSRC, Ev_Alloc1D (NST * 6)])))),
       trace = calls (load_binary NSRC READ_STEP NST 3 NZ
           (allocated e NSRC READ_STEP 3 (items f) (Alloc1D e (NST * 6))
             (Ev_Alloc1P (NSRC * 3) # replicate 6 (Ev_Alloc1D (NSRC * READ_STEP))
                @ [Ev_fopen INSRC, Ev_Alloc1D (NST * 6)])))
         @ [Ev_Delloc1D, Ev_fclose]
         @ snd (resolve e NSRC READ_STEP 3
         (load_binary NSRC READ_STEP NST 3 NZ
           (allocated e NSRC READ_STEP 3 (items f) (Alloc1D e (NST * 6))
             (Ev_Alloc1P (NSRC * 3) # replicate 6 (Ev_Alloc1D (NSRC * READ_STEP))
                @ [Ev_fopen INSRC, Ev_Alloc1D (NST * 6)]))))\<rparr>"
  by (simp add: inisource_def Let_def split: prod.splits)

lemma inisource_text:
  "1 \<le> NSRC \<Longrightarrow> fopen e INSRC = Some f \<Longrightarrow>
   inisource e 0 NSRC READ_STEP NST 3 NZ INSRC INSRC_I2 out =
     Some \<lparr>ret = 0,
       outs = fst (resolve e NSRC READ_STEP 3
         (load_text NSRC READ_STEP 3 NZ
           (allocated e NSRC READ_STEP 3 (tokens f) []
             (Ev_Alloc1P (NSRC * 3) # replicate 6 (Ev_Alloc1D (NSRC * READ_STEP))
                @ [Ev_fopen INSRC])))),
       trace = calls (load_text NSRC READ_STEP 3 NZ
           (allocated e NSRC READ_STEP 3 (tokens f) []
             (Ev_Alloc1P (NSRC * 3) # replicate 6 (Ev_Alloc1D (NSRC * READ_STEP))
                @ [Ev_fopen INSRC])))
         @ [Ev_fclose]
         @ snd (resolve e NSRC READ_STEP 3
         (load_text NSRC READ_STEP 3 NZ
           (allocated e NSRC READ_STEP 3 (tokens f) []
             (Ev_Alloc1P (NSRC * 3) # replicate 6 (Ev_Alloc1D (NSRC * READ_STEP))
                @ [Ev_fopen INSRC]))))\<rparr>"
  by (simp add: inisource_def Let_def split: prod.splits)

subsection \<open>Claims about the loader\<close>

text \<open>C6. Binary mode, on a file that holds the \<open>NSRC\<close> records, with \<open>0 < NST\<close> and
  \<open>READ_STEP \<le> NST\<close>: for each node the loader calls \<open>fread\<close> once for 3 items and once
  for \<open>NST * 6\<close> items, so that the stream ends \<open>NSRC * (3 + NST * 6)\<close> items further; of
  each block the catalog keeps the first \<open>READ_STEP\<close> samples of each channel, and nothing
  else.\<close>

theorem binary_mode_reads_whole_block:
  assumes "fopen e INSRC = Some f" "1 \<le> NSRC" "0 < NST" "0 \<le> READ_STEP" "READ_STEP \<le> NST"
    and "nat NSRC * bin_len (nat NST) \<le> length (items f)"
    and "evs = Ev_Alloc1P (NSRC * 3) # replicate 6 (Ev_Alloc1D (NSRC * READ_STEP))
                 @ [Ev_fopen INSRC, Ev_Alloc1D (NST * 6)]"
    and "cat = load_binary NSRC READ_STEP NST 3 NZ
                 (allocated e NSRC READ_STEP 3 (items f) (Alloc1D e (NST * 6)) evs)"
  shows "inisource e 1 NSRC READ_STEP NST 3 NZ INSRC INSRC_I2 out =
           Some \<lparr>ret = 0, outs = fst (resolve e NSRC READ_STEP 3 cat),
                  trace = evs @ concat (replicate (nat NSRC) [Ev_fread 3, Ev_fread (nat NST * 6)])
                          @ [Ev_Delloc1D, Ev_fclose] @ snd (resolve e NSRC READ_STEP 3 cat)\<rparr>
       \<and> stream cat = drop (nat NSRC * bin_len (nat NST)) (items f)
       \<and> taxx cat = concat (map (bin_row (nat NST) (nat READ_STEP) 0 (items f)) [0..<nat NSRC])
       \<and> tayy cat = concat (map (bin_row (nat NST) (nat READ_STEP) 1 (items f)) [0..<nat NSRC])
       \<and> tazz cat = concat (map (bin_row (nat NST) (nat READ_STEP) 2 (items f)) [0..<nat NSRC])
       \<and> taxz cat = concat (map (bin_row (nat NST) (nat READ_STEP) 3 (items f)) [0..<nat NSRC])
       \<and> tayz cat = concat (map (bin_row (nat NST) (nat READ_STEP) 4 (items f)) [0..<nat NSRC])
       \<and> taxy cat = concat (map (bin_row (nat NST) (nat READ_STEP) 5 (items f)) [0..<nat NSRC])"
proof -
  obtain rs nst where rs: "READ_STEP = int rs" and nst: "NST = int nst"
    using assms(3,4) by (metis nat_0_le order_less_imp_le)
  have pos: "0 < nst" "rs \<le> nst" using assms(3,5) rs nst by simp_all
  have len: "nat NSRC * bin_len nst \<le> length (items f)" using assms(6) nst by simp
  have st: "cat = load_binary NSRC (int rs) (int nst) 3 NZ
                 (allocated e NSRC (int rs) 3 (items f) (Alloc1D e (int nst * 6)) evs)"
    using assms(8) rs nst by simp
  note facts = load_binary_allocated [OF pos len st]
  have "inisource e 1 NSRC READ_STEP NST 3 NZ INSRC INSRC_I2 out =
           Some \<lparr>ret = 0, outs = fst (resolve e NSRC READ_STEP 3 cat),
                  trace = calls cat @ [Ev_Delloc1D, Ev_fclose] @ snd (resolve e NSRC READ_STEP 3 cat)\<rparr>"
    unfolding assms(8) assms(7) by (rule inisource_binary [OF assms(2,1)])
  then show ?thesis
    using facts by (simp add: rs nst)
qed

theorem binary_mode_reads_whole_block_witness:
  "fopen example_env ''source'' = Some example_file \<and>
   nat 2 * bin_len (nat 2) \<le> length (items example_file) \<and>
   inisource example_env 1 2 1 2 3 5 ''source'' [] example_this =
     Some \<lparr>ret = 0,
       outs = fst (resolve example_env 2 1 3
         (load_binary 2 1 2 3 5
           (allocated example_env 2 1 3 (items example_file) (Alloc1D example_env (2 * 6))
             (Ev_Alloc1P (2 * 3) # replicate 6 (Ev_Alloc1D (2 * 1))
                @ [Ev_fopen ''source'', Ev_Alloc1D (2 * 6)])))),
       trace = (Ev_Alloc1P (2 * 3) # replicate 6 (Ev_Alloc1D (2 * 1))
                @ [Ev_fopen ''source'', Ev_Alloc1D (2 * 6)])
          @ concat (replicate (nat 2) [Ev_fread 3, Ev_fread (nat 2 * 6)])
          @ [Ev_Delloc1D, Ev_fclose]
          @ snd (resolve example_env 2 1 3
         (load_binary 2 1 2 3 5
           (allocated example_env 2 1 3 (items example_file) (Alloc1D example_env (2 * 6))
             (Ev_Alloc1P (2 * 3) # replicate 6 (Ev_Alloc1D (2 * 1))
                @ [Ev_fopen ''source'', Ev_Alloc1D (2 * 6)]))))\<rparr> \<and>
   taxx (load_binary 2 1 2 3 5
           (allocated example_env 2 1 3 (items example_file) (Alloc1D example_env (2 * 6))
             (Ev_Alloc1P (2 * 3) # replicate 6 (Ev_Alloc1D (2 * 1))
                @ [Ev_fopen ''source'', Ev_Alloc1D (2 * 6)])))
     = concat (map (bin_row (nat 2) (nat 1) 0 (items example_file)) [0..<nat 2])"
proof -
  have h1: "fopen example_env ''source'' = Some example_file"
    by (simp add: example_env_def)
  have h6: "nat 2 * bin_len (nat 2) \<le> length (items example_file)"
    by (simp add: example_file_def bin_len_def)
  note t = binary_mode_reads_whole_block
    [where e = example_env and INSRC = "''source''" and f = example_file and NSRC = 2
       and NST = 2 and READ_STEP = 1 and NZ = 5 and ?INSRC_I2.0 = "[]" and out = example_this,
     OF h1 _ _ _ _ h6 refl refl]
  have "(1::int) \<le> 2" "(0::int) < 2" "(0::int) \<le> 1" by simp_all
  from t [OF this(1,2,3,1)] h1 h6 show ?thesis by blast
qed

text \<open>C4. In binary mode and in text mode, on a file that holds the \<open>NSRC\<close> records, the
  z coordinate stored in the catalog for record \<open>i\<close> is \<open>NZ + 1 - z\<close>, with \<open>z\<close> the third
  integer of the record, and the outputs of \<open>inisource\<close> are those of the resolver on this
  catalog; the resolver stores, for an owned record, the catalog z minus \<open>nbz\<close> plus 1, so
  that the flip is applied at load time only. The first record of the example file has
  \<open>z = 1\<close> and is stored with \<open>NZ = 5\<close>.\<close>

theorem z_flipped_once_at_load:
  "(fopen e INSRC = Some f \<and> 1 \<le> NSRC \<and> 0 < NST \<and> 0 \<le> READ_STEP \<and> READ_STEP \<le> NST \<and>
    nat NSRC * bin_len (nat NST) \<le> length (items f) \<and>
    catb = load_binary NSRC READ_STEP NST 3 NZ
             (allocated e NSRC READ_STEP 3 (items f) (Alloc1D e (NST * 6))
                (Ev_Alloc1P (NSRC * 3) # replicate 6 (Ev_Alloc1D (NSRC * READ_STEP))
                   @ [Ev_fopen INSRC, Ev_Alloc1D (NST * 6)])) \<and>
    i < nat NSRC
    \<longrightarrow> map_option outs (inisource e 1 NSRC READ_STEP NST 3 NZ INSRC INSRC_I2 out)
          = Some (fst (resolve e NSRC READ_STEP 3 catb)) \<and>
        tpsrc catb ! (i * 3 + 2) = NZ + 1 - sint (items f ! (i * bin_len (nat NST) + 2)))
   \<and>
   (fopen e INSRC = Some f \<and> 1 \<le> NSRC \<and> 0 \<le> READ_STEP \<and>
    text_records (nat READ_STEP) (nat NSRC) (tokens f) \<and>
    catt = load_text NSRC READ_STEP 3 NZ
             (allocated e NSRC READ_STEP 3 (tokens f) []
                (Ev_Alloc1P (NSRC * 3) # replicate 6 (Ev_Alloc1D (NSRC * READ_STEP))
                   @ [Ev_fopen INSRC])) \<and>
    i < nat NSRC
    \<longrightarrow> map_option outs (inisource e 0 NSRC READ_STEP NST 3 NZ INSRC INSRC_I2 out)
          = Some (fst (resolve e NSRC READ_STEP 3 catt)) \<and>
        tpsrc catt ! (i * 3 + 2) = NZ + 1 - int_of (tokens f ! (i * txt_len (nat READ_STEP) + 2)))
   \<and>
   (q < length (own_ix e (tpsrc c) (nat NSRC))
    \<longrightarrow> the (m_ptpSrc (fst (resolve e NSRC READ_STEP 3 c))) ! (q * 3 + 2)
          = tpsrc c ! (own_ix e (tpsrc c) (nat NSRC) ! q * 3 + 2) - nbz e + 1)"
proof (intro conjI impI)
  assume h: "fopen e INSRC = Some f \<and> 1 \<le> NSRC \<and> 0 < NST \<and> 0 \<le> READ_STEP \<and> READ_STEP \<le> NST \<and>
    nat NSRC * bin_len (nat NST) \<le> length (items f) \<and>
    catb = load_binary NSRC READ_STEP NST 3 NZ
             (allocated e NSRC READ_STEP 3 (items f) (Alloc1D e (NST * 6))
                (Ev_Alloc1P (NSRC * 3) # replicate 6 (Ev_Alloc1D (NSRC * READ_STEP))
                   @ [Ev_fopen INSRC, Ev_Alloc1D (NST * 6)])) \<and>
    i < nat NSRC"
  then obtain rs nst where rs: "READ_STEP = int rs" and nst: "NST = int nst"
    by (metis nat_0_le order_less_imp_le)
  from h have pos: "0 < nst" "rs \<le> nst" and len: "nat NSRC * bin_len nst \<le> length (items f)"
    and i: "i < nat NSRC"
    using rs nst by simp_all
  from h have st: "catb = load_binary NSRC (int rs) (int nst) 3 NZ
             (allocated e NSRC (int rs) 3 (items f) (Alloc1D e (int nst * 6))
                (Ev_Alloc1P (NSRC * 3) # replicate 6 (Ev_Alloc1D (NSRC * int rs))
                   @ [Ev_fopen INSRC, Ev_Alloc1D (int nst * 6)]))"
    using rs nst by simp
  show "map_option outs (inisource e 1 NSRC READ_STEP NST 3 NZ INSRC INSRC_I2 out)
          = Some (fst (resolve e NSRC READ_STEP 3 catb))"
    using h by (simp add: inisource_binary)
  show "tpsrc catb ! (i * 3 + 2) = NZ + 1 - sint (items f ! (i * bin_len (nat NST) + 2))"
    unfolding load_binary_allocated(3) [OF pos len st]
    using bin_pos_concat [OF i, of 2 NZ nst "items f"] by (simp add: bin_pos_def nst)
next
  assume h: "fopen e INSRC = Some f \<and> 1 \<le> NSRC \<and> 0 \<le> READ_STEP \<and>
    text_records (nat READ_STEP) (nat NSRC) (tokens f) \<and>
    catt = load_text NSRC READ_STEP 3 NZ
             (allocated e NSRC READ_STEP 3 (tokens f) []
                (Ev_Alloc1P (NSRC * 3) # replicate 6 (Ev_Alloc1D (NSRC * READ_STEP))
                   @ [Ev_fopen INSRC])) \<and>
    i < nat NSRC"
  then obtain rs where rs: "READ_STEP = int rs"
    by (metis nat_0_le)
  from h have rec: "text_records rs (nat NSRC) (tokens f)" and i: "i < nat NSRC"
    using rs by simp_all
  from h have st: "catt = load_text NSRC (int rs) 3 NZ
             (allocated e NSRC (int rs) 3 (tokens f) []
                (Ev_Alloc1P (NSRC * 3) # replicate 6 (Ev_Alloc1D (NSRC * int rs))
                   @ [Ev_fopen INSRC]))"
    using rs by simp
  show "map_option outs (inisource e 0 NSRC READ_STEP NST 3 NZ INSRC INSRC_I2 out)
          = Some (fst (resolve e NSRC READ_STEP 3 catt))"
    using h by (simp add: inisource_text)
  show "tpsrc catt ! (i * 3 + 2) = NZ + 1 - int_of (tokens f ! (i * txt_len (nat READ_STEP) + 2))"
    unfolding load_text_allocated(3) [OF rec st]
    using txt_pos_concat [OF i, of 2 NZ rs "tokens f"] by (simp add: txt_pos_def rs)
next
  assume "q < length (own_ix e (tpsrc c) (nat NSRC))"
  then show "the (m_ptpSrc (fst (resolve e NSRC READ_STEP 3 c))) ! (q * 3 + 2)
          = tpsrc c ! (own_ix e (tpsrc c) (nat NSRC) ! q * 3 + 2) - nbz e + 1"
    by (rule owned_z)
qed

theorem z_flipped_once_at_load_witness:
  "text_records (nat 1) (nat 2) (tokens example_file) \<and>
   tpsrc (load_binary 2 1 2 3 5
           (allocated example_env 2 1 3 (items example_file) (Alloc1D example_env (2 * 6))
             (Ev_Alloc1P (2 * 3) # replicate 6 (Ev_Alloc1D (2 * 1))
                @ [Ev_fopen ''source'', Ev_Alloc1D (2 * 6)]))) ! (0 * 3 + 2)
     = 5 + 1 - sint (items example_file ! (0 * bin_len (nat 2) + 2)) \<and>
   sint (items example_file ! (0 * bin_len (nat 2) + 2)) = 1 \<and>
   tpsrc (load_text 2 1 3 5
           (allocated example_env 2 1 3 (tokens example_file) []
             (Ev_Alloc1P (2 * 3) # replicate 6 (Ev_Alloc1D (2 * 1))
                @ [Ev_fopen ''source'']))) ! (0 * 3 + 2)
     = 5 + 1 - int_of (tokens example_file ! (0 * txt_len (nat 1) + 2)) \<and>
   int_of (tokens example_file ! (0 * txt_len (nat 1) + 2)) = 1 \<and>
   0 < length (own_ix example_env (tpsrc example_catalog) (nat 2)) \<and>
   the (m_ptpSrc (fst (resolve example_env 2 1 3 example_catalog))) ! (0 * 3 + 2)
     = tpsrc example_catalog ! (own_ix example_env (tpsrc example_catalog) (nat 2) ! 0 * 3 + 2)
       - nbz example_env + 1"
proof -
  have ho: "0 < length (own_ix example_env (tpsrc example_catalog) (nat 2))"
    by (simp add: own_ix_def inside_def example_catalog_def example_env_def numeral_2_eq_2
        nbx_def nex_def nby_def ney_def nbz_def nez_def)
  have h1: "fopen example_env ''source'' = Some example_file"
    by (simp add: example_env_def)
  have h6: "nat 2 * bin_len (nat 2) \<le> length (items example_file)"
    by (simp add: example_file_def bin_len_def)
  have ht: "text_records (nat 1) (nat 2) (tokens example_file)"
    by (simp add: text_records_def txt_len_def example_file_def numeral_2_eq_2 numeral_3_eq_3
        eval_nat_numeral less_Suc_eq)
  have n: "(1::int) \<le> 2" "(0::int) < 2" "(0::int) \<le> 1" "(0::nat) < nat 2" by simp_all
  have v: "sint (items example_file ! (0 * bin_len (nat 2) + 2)) = 1"
    "int_of (tokens example_file ! (0 * txt_len (nat 1) + 2)) = 1"
    by (simp_all add: example_file_def)
  note t = z_flipped_once_at_load
    [where e = example_env and INSRC = "''source''" and f = example_file and NSRC = 2
       and NST = 2 and READ_STEP = 1 and NZ = 5 and ?INSRC_I2.0 = "[]" and out = example_this
       and i = 0 and q = 0 and c = example_catalog
       and catb = "load_binary 2 1 2 3 5
           (allocated example_env 2 1 3 (items example_file) (Alloc1D example_env (2 * 6))
             (Ev_Alloc1P (2 * 3) # replicate 6 (Ev_Alloc1D (2 * 1))
                @ [Ev_fopen ''source'', Ev_Alloc1D (2 * 6)]))"
       and catt = "load_text 2 1 3 5
           (allocated example_env 2 1 3 (tokens example_file) []
             (Ev_Alloc1P (2 * 3) # replicate 6 (Ev_Alloc1D (2 * 1))
                @ [Ev_fopen ''source'']))"]
  from t h1 h6 ht ho n v show ?thesis by blast
qed

section \<open>The injector\<close>

lemma assign3_same [simp]: "assign3 a x y z v x y z = v"
  by (simp add: assign3_def)

lemma assign3_other: "(x', y', z') \<noteq> (x, y, z) \<Longrightarrow> assign3 a x y z v x' y' z' = a x' y' z'"
  by (auto simp: assign3_def)

lemma locate_addsrc_node [simp]:
  "locate this dim' (addsrc_node u this' i vtst READ_STEP dim'' j pd) j' = locate this dim' pd j'"
  by (simp add: locate_def addsrc_node_def Let_def split: prod.splits)

lemma locate_fold [simp]:
  "locate this dim' (fold (addsrc_node u this' i vtst READ_STEP dim'') js pd) j' = locate this dim' pd j'"
  by (induction js arbitrary: pd) simp_all

lemma stress_addsrc_node_same:
  "stress (addsrc_node u this i vtst READ_STEP dim' j pd) (locate this dim' pd j)
     = injected u this vtst (nat (int j * READ_STEP + i)) (stress pd (locate this dim' pd j))"
  by (simp add: stress_def injected_def addsrc_node_def Let_def split: prod.splits)

lemma stress_addsrc_node_other:
  "l \<noteq> locate this dim' pd j \<Longrightarrow> stress (addsrc_node u this i vtst READ_STEP dim' j pd) l = stress pd l"
  by (cases l) (auto simp: stress_def addsrc_node_def Let_def assign3_other split: prod.splits)

lemma window_index:
  "0 \<le> i \<Longrightarrow> i < READ_STEP \<Longrightarrow> nat (int j * READ_STEP + i) = j * nat READ_STEP + nat i"
  by (simp add: nat_add_distrib nat_mult_distrib)

lemma stress_addsrc_node:
  "stress (addsrc_node u this i vtst READ_STEP dim' j pd) l =
     (if locate this dim' pd j = l
      then injected u this vtst (nat (int j * READ_STEP + i)) (stress pd l)
      else stress pd l)"
  using stress_addsrc_node_same [of u this i vtst READ_STEP dim' j pd]
    stress_addsrc_node_other [of l this dim' pd j u i vtst READ_STEP]
  by auto

lemma stress_fold:
  "stress (fold (addsrc_node u this i vtst READ_STEP dim') js pd) l =
     fold (\<lambda>j S. injected u this vtst (nat (int j * READ_STEP + i)) S)
       (filter (\<lambda>j. locate this dim' pd j = l) js) (stress pd l)"
proof (induction js arbitrary: pd)
  case Nil
  then show ?case by simp
next
  case (Cons j js)
  have "stress (fold (addsrc_node u this i vtst READ_STEP dim') (j # js) pd) l
      = fold (\<lambda>j S. injected u this vtst (nat (int j * READ_STEP + i)) S)
          (filter (\<lambda>j. locate this dim' pd j = l) js)
          (stress (addsrc_node u this i vtst READ_STEP dim' j pd) l)"
    using Cons.IH [of "addsrc_node u this i vtst READ_STEP dim' j pd"] by simp
  then show ?case
    by (simp add: stress_addsrc_node)
qed

lemma fold_injected:
  "fold (\<lambda>j S. injected u this vtst (n j) S) js [s0, s1, s2, s3, s4, s5] =
     [fold (\<lambda>j s. fsub u s (fmul u vtst (the (m_ptAxx this) ! n j))) js s0,
      fold (\<lambda>j s. fsub u s (fmul u vtst (the (m_ptAyy this) ! n j))) js s1,
      fold (\<lambda>j s. fsub u s (fmul u vtst (the (m_ptAzz this) ! n j))) js s2,
      fold (\<lambda>j s. fsub u s (fmul u vtst (the (m_ptAxz this) ! n j))) js s3,
      fold (\<lambda>j s. fsub u s (fmul u vtst (the (m_ptAyz this) ! n j))) js s4,
      fold (\<lambda>j s. fsub u s (fmul u vtst (the (m_ptAxy this) ! n j))) js s5]"
  by (induction js arbitrary: s0 s1 s2 s3 s4 s5) (simp_all add: injected_def)

lemma locate_3:
  "m_ptpSrc this = Some p \<Longrightarrow>
   locate this 3 pd j =
     (globalToPatch pd (p ! (j * 3) - 1) (p ! (j * 3 + 1) - 1) (p ! (j * 3 + 2) - 1),
      globalToLocalX pd (p ! (j * 3) - 1) (p ! (j * 3 + 1) - 1) (p ! (j * 3 + 2) - 1),
      globalToLocalY pd (p ! (j * 3) - 1) (p ! (j * 3 + 1) - 1) (p ! (j * 3 + 2) - 1),
      globalToLocalZ pd (p ! (j * 3) - 1) (p ! (j * 3 + 1) - 1) (p ! (j * 3 + 2) - 1))"
  by (simp add: locate_def Let_def)

lemma addsrc_at_location:
  assumes "0 \<le> i" and "i < READ_STEP"
    and "m_ptpSrc this = Some p"
    and "vtst = fdiv u DT (fmul u (fmul u DH DH) DH)"
    and "js = filter
           (\<lambda>j. globalToPatch pd (p ! (j * 3) - 1) (p ! (j * 3 + 1) - 1) (p ! (j * 3 + 2) - 1) = pid \<and>
                globalToLocalX pd (p ! (j * 3) - 1) (p ! (j * 3 + 1) - 1) (p ! (j * 3 + 2) - 1) = x \<and>
                globalToLocalY pd (p ! (j * 3) - 1) (p ! (j * 3 + 1) - 1) (p ! (j * 3 + 2) - 1) = y \<and>
                globalToLocalZ pd (p ! (j * 3) - 1) (p ! (j * 3 + 1) - 1) (p ! (j * 3 + 2) - 1) = z)
           [0..<nat (m_nPsrc this)]"
  shows "stress (addsrc u this i DH DT NST READ_STEP 3 pd) (pid, x, y, z) =
     [fold (\<lambda>j s. fsub u s (fmul u vtst (the (m_ptAxx this) ! (j * nat READ_STEP + nat i)))) js
        (m_stressXX (m_patches pd pid) x y z),
      fold (\<lambda>j s. fsub u s (fmul u vtst (the (m_ptAyy this) ! (j * nat READ_STEP + nat i)))) js
        (m_stressYY (m_patches pd pid) x y z),
      fold (\<lambda>j s. fsub u s (fmul u vtst (the (m_ptAzz this) ! (j * nat READ_STEP + nat i)))) js
        (m_stressZZ (m_patches pd pid) x y z),
      fold (\<lambda>j s. fsub u s (fmul u vtst (the (m_ptAxz this) ! (j * nat READ_STEP + nat i)))) js
        (m_stressXZ (m_patches pd pid) x y z),
      fold (\<lambda>j s. fsub u s (fmul u vtst (the (m_ptAyz this) ! (j * nat READ_STEP + nat i)))) js
        (m_stressYZ (m_patches pd pid) x y z),
      fold (\<lambda>j s. fsub u s (fmul u vtst (the (m_ptAxy this) ! (j * nat READ_STEP + nat i)))) js
        (m_stressXY (m_patches pd pid) x y z)]"
proof -
  have js: "filter (\<lambda>j. locate this 3 pd j = (pid, x, y, z)) [0..<nat (m_nPsrc this)] = js"
    unfolding assms(5) by (simp add: locate_3 [OF assms(3)])
  have "stress (addsrc u this i DH DT NST READ_STEP 3 pd) (pid, x, y, z) =
      fold (\<lambda>j S. injected u this vtst (nat (int j * READ_STEP + i)) S) js (stress pd (pid, x, y, z))"
    unfolding addsrc_def Let_def assms(4) [symmetric] stress_fold js ..
  also have "\<dots> = fold (\<lambda>j S. injected u this vtst (j * nat READ_STEP + nat i) S) js
      (stress pd (pid, x, y, z))"
    by (simp only: window_index [OF assms(1,2)])
  finally show ?thesis
    by (simp only: stress_def prod.case fold_injected)
qed

lemma example_sites:
  "filter
     (\<lambda>j. globalToPatch example_pd ([2, 3, 5, 4, 1, 2, 2, 3, 5] ! (j * 3) - 1)
            ([2, 3, 5, 4, 1, 2, 2, 3, 5] ! (j * 3 + 1) - 1)
            ([2, 3, 5, 4, 1, 2, 2, 3, 5] ! (j * 3 + 2) - 1) = 1 \<and>
          globalToLocalX example_pd ([2, 3, 5, 4, 1, 2, 2, 3, 5] ! (j * 3) - 1)
            ([2, 3, 5, 4, 1, 2, 2, 3, 5] ! (j * 3 + 1) - 1)
            ([2, 3, 5, 4, 1, 2, 2, 3, 5] ! (j * 3 + 2) - 1) = 13 \<and>
          globalToLocalY example_pd ([2, 3, 5, 4, 1, 2, 2, 3, 5] ! (j * 3) - 1)
            ([2, 3, 5, 4, 1, 2, 2, 3, 5] ! (j * 3 + 1) - 1)
            ([2, 3, 5, 4, 1, 2, 2, 3, 5] ! (j * 3 + 2) - 1) = 20 \<and>
          globalToLocalZ example_pd ([2, 3, 5, 4, 1, 2, 2, 3, 5] ! (j * 3) - 1)
            ([2, 3, 5, 4, 1, 2, 2, 3, 5] ! (j * 3 + 1) - 1)
            ([2, 3, 5, 4, 1, 2, 2, 3, 5] ! (j * 3 + 2) - 1) = 4)
     [0..<nat (m_nPsrc example_owned)] = [1]"
  "filter
     (\<lambda>j. globalToPatch example_pd ([2, 3, 5, 4, 1, 2, 2, 3, 5] ! (j * 3) - 1)
            ([2, 3, 5, 4, 1, 2, 2, 3, 5] ! (j * 3 + 1) - 1)
            ([2, 3, 5, 4, 1, 2, 2, 3, 5] ! (j * 3 + 2) - 1) = 4 \<and>
          globalToLocalX example_pd ([2, 3, 5, 4, 1, 2, 2, 3, 5] ! (j * 3) - 1)
            ([2, 3, 5, 4, 1, 2, 2, 3, 5] ! (j * 3 + 1) - 1)
            ([2, 3, 5, 4, 1, 2, 2, 3, 5] ! (j * 3 + 2) - 1) = 11 \<and>
          globalToLocalY example_pd ([2, 3, 5, 4, 1, 2, 2, 3, 5] ! (j * 3) - 1)
            ([2, 3, 5, 4, 1, 2, 2, 3, 5] ! (j * 3 + 1) - 1)
            ([2, 3, 5, 4, 1, 2, 2, 3, 5] ! (j * 3 + 2) - 1) = 22 \<and>
          globalToLocalZ example_pd ([2, 3, 5, 4, 1, 2, 2, 3, 5] ! (j * 3) - 1)
            ([2, 3, 5, 4, 1, 2, 2, 3, 5] ! (j * 3 + 1) - 1)
            ([2, 3, 5, 4, 1, 2, 2, 3, 5] ! (j * 3 + 2) - 1) = 7)
     [0..<nat (m_nPsrc example_owned)] = [0, 2]"
  by (simp_all add: example_owned_def example_pd_def upt_3)

text \<open>C1, as amended. Let the window position \<open>i\<close> lie in the window and \<open>dim\<close> be 3. The
  location of owned node \<open>j\<close> is what the four look-ups of the decomposition give for its
  three stored coordinates, each less 1. For any location and each of the six components, a
  call of \<open>addsrc\<close> takes the value \<open>S\<close> found there and subtracts from it, in the order of
  the owned table, \<open>vtst * a[j * READ_STEP + i]\<close> for every owned node \<open>j\<close> at that location,
  with \<open>vtst = DT / (DH * DH * DH)\<close> and \<open>a\<close> the table of the same channel (xx with
  \<open>m_ptAxx\<close>, yy with \<open>m_ptAyy\<close>, zz with \<open>m_ptAzz\<close>, xz with \<open>m_ptAxz\<close>, yz with \<open>m_ptAyz\<close>,
  xy with \<open>m_ptAxy\<close>). So where \<open>j\<close> is the only owned node the value becomes
  \<open>S - vtst * a[j * READ_STEP + i]\<close>, and where there is none it stays.\<close>

theorem addsrc_subtracts_samples_at_location:
  assumes "0 \<le> i" and "i < READ_STEP"
    and "m_ptpSrc this = Some p"
    and "m_ptAxx this = Some axx" and "m_ptAyy this = Some ayy" and "m_ptAzz this = Some azz"
    and "m_ptAxz this = Some axz" and "m_ptAyz this = Some ayz" and "m_ptAxy this = Some axy"
    and "vtst = fdiv u DT (fmul u (fmul u DH DH) DH)"
    and "js = filter
           (\<lambda>j. globalToPatch pd (p ! (j * 3) - 1) (p ! (j * 3 + 1) - 1) (p ! (j * 3 + 2) - 1) = pid \<and>
                globalToLocalX pd (p ! (j * 3) - 1) (p ! (j * 3 + 1) - 1) (p ! (j * 3 + 2) - 1) = x \<and>
                globalToLocalY pd (p ! (j * 3) - 1) (p ! (j * 3 + 1) - 1) (p ! (j * 3 + 2) - 1) = y \<and>
                globalToLocalZ pd (p ! (j * 3) - 1) (p ! (j * 3 + 1) - 1) (p ! (j * 3 + 2) - 1) = z)
           [0..<nat (m_nPsrc this)]"
    and "final = addsrc u this i DH DT NST READ_STEP 3 pd"
  shows
   "m_stressXX (m_patches final pid) x y z
      = fold (\<lambda>j S. fsub u S (fmul u vtst (axx ! (j * nat READ_STEP + nat i)))) js
          (m_stressXX (m_patches pd pid) x y z) \<and>
    m_stressYY (m_patches final pid) x y z
      = fold (\<lambda>j S. fsub u S (fmul u vtst (ayy ! (j * nat READ_STEP + nat i)))) js
          (m_stressYY (m_patches pd pid) x y z) \<and>
    m_stressZZ (m_patches final pid) x y z
      = fold (\<lambda>j S. fsub u S (fmul u vtst (azz ! (j * nat READ_STEP + nat i)))) js
          (m_stressZZ (m_patches pd pid) x y z) \<and>
    m_stressXZ (m_patches final pid) x y z
      = fold (\<lambda>j S. fsub u S (fmul u vtst (axz ! (j * nat READ_STEP + nat i)))) js
          (m_stressXZ (m_patches pd pid) x y z) \<and>
    m_stressYZ (m_patches final pid) x y z
      = fold (\<lambda>j S. fsub u S (fmul u vtst (ayz ! (j * nat READ_STEP + nat i)))) js
          (m_stressYZ (m_patches pd pid) x y z) \<and>
    m_stressXY (m_patches final pid) x y z
      = fold (\<lambda>j S. fsub u S (fmul u vtst (axy ! (j * nat READ_STEP + nat i)))) js
          (m_stressXY (m_patches pd pid) x y z) \<and>
    (js = [j] \<longrightarrow>
      m_stressXX (m_patches final pid) x y z
        = fsub u (m_stressXX (m_patches pd pid) x y z)
            (fmul u vtst (axx ! (j * nat READ_STEP + nat i))) \<and>
      m_stressYY (m_patches final pid) x y z
        = fsub u (m_stressYY (m_patches pd pid) x y z)
            (fmul u vtst (ayy ! (j * nat READ_STEP + nat i))) \<and>
      m_stressZZ (m_patches final pid) x y z
        = fsub u (m_stressZZ (m_patches pd pid) x y z)
            (fmul u vtst (azz ! (j * nat READ_STEP + nat i))) \<and>
      m_stressXZ (m_patches final pid) x y z
        = fsub u (m_stressXZ (m_patches pd pid) x y z)
            (fmul u vtst (axz ! (j * nat READ_STEP + nat i))) \<and>
      m_stressYZ (m_patches final pid) x y z
        = fsub u (m_stressYZ (m_patches pd pid) x y z)
            (fmul u vtst (ayz ! (j * nat READ_STEP + nat i))) \<and>
      m_stressXY (m_patches final pid) x y z
        = fsub u (m_stressXY (m_patches pd pid) x y z)
            (fmul u vtst (axy ! (j * nat READ_STEP + nat i))))"
proof -
  note s = addsrc_at_location [OF assms(1,2,3,10,11), where NST = NST]
  have all: "m_stressXX (m_patches final pid) x y z
      = fold (\<lambda>j S. fsub u S (fmul u vtst (axx ! (j * nat READ_STEP + nat i)))) js
          (m_stressXX (m_patches pd pid) x y z)"
    "m_stressYY (m_patches final pid) x y z
      = fold (\<lambda>j S. fsub u S (fmul u vtst (ayy ! (j * nat READ_STEP + nat i)))) js
          (m_stressYY (m_patches pd pid) x y z)"
    "m_stressZZ (m_patches final pid) x y z
      = fold (\<lambda>j S. fsub u S (fmul u vtst (azz ! (j * nat READ_STEP + nat i)))) js
          (m_stressZZ (m_patches pd pid) x y z)"
    "m_stressXZ (m_patches final pid) x y z
      = fold (\<lambda>j S. fsub u S (fmul u vtst (axz ! (j * nat READ_STEP + nat i)))) js
          (m_stressXZ (m_patches pd pid) x y z)"
    "m_stressYZ (m_patches final pid) x y z
      = fold (\<lambda>j S. fsub u S (fmul u vtst (ayz ! (j * nat READ_STEP + nat i)))) js
          (m_stressYZ (m_patches pd pid) x y z)"
    "m_stressXY (m_patches final pid) x y z
      = fold (\<lambda>j S. fsub u S (fmul u vtst (axy ! (j * nat READ_STEP + nat i)))) js
          (m_stressXY (m_patches pd pid) x y z)"
    using s by (simp_all add: stress_def assms(4-9,12))
  show ?thesis
    using all by simp
qed

theorem addsrc_subtracts_samples_at_location_witness:
  "m_stressXX (m_patches (addsrc exact example_owned 1 2 1 10 2 3 example_pd) 1) 13 20 4 = 96 \<and>
   m_stressYY (m_patches (addsrc exact example_owned 1 2 1 10 2 3 example_pd) 1) 13 20 4 = 195 \<and>
   m_stressZZ (m_patches (addsrc exact example_owned 1 2 1 10 2 3 example_pd) 1) 13 20 4 = 294 \<and>
   m_stressXZ (m_patches (addsrc exact example_owned 1 2 1 10 2 3 example_pd) 1) 13 20 4 = 393 \<and>
   m_stressYZ (m_patches (addsrc exact example_owned 1 2 1 10 2 3 example_pd) 1) 13 20 4 = 488 \<and>
   m_stressXY (m_patches (addsrc exact example_owned 1 2 1 10 2 3 example_pd) 1) 13 20 4 = 587 \<and>
   m_stressXX (m_patches (addsrc exact example_owned 1 2 1 10 2 3 example_pd) 4) 11 22 7 = 91 \<and>
   m_stressXY (m_patches (addsrc exact example_owned 1 2 1 10 2 3 example_pd) 4) 11 22 7 = 586"
proof -
  have i: "(0::int) \<le> 1" "(1::int) < 2" by simp_all
  have tabs: "m_ptpSrc example_owned = Some [2, 3, 5, 4, 1, 2, 2, 3, 5]"
    "m_ptAxx example_owned = Some [800, 8, 808, 32, 816, 64]"
    "m_ptAyy example_owned = Some [824, 16, 832, 40, 840, 72]"
    "m_ptAzz example_owned = Some [848, 24, 856, 48, 864, 80]"
    "m_ptAxz example_owned = Some [872, 80, 880, 56, 888, 88]"
    "m_ptAyz example_owned = Some [896, 88, 904, 96, 912, 8]"
    "m_ptAxy example_owned = Some [920, 96, 928, 104, 936, 16]"
    by (simp_all add: example_owned_def)
  note alone = addsrc_subtracts_samples_at_location
    [OF i tabs refl example_sites(1) [symmetric] refl,
     where u = exact and DT = 1 and DH = 2 and NST = 10 and j = 1,
     THEN conjunct2, THEN conjunct2, THEN conjunct2, THEN conjunct2, THEN conjunct2,
     THEN conjunct2, THEN mp, OF refl]
  note shared = addsrc_subtracts_samples_at_location
    [OF i tabs refl example_sites(2) [symmetric] refl,
     where u = exact and DT = 1 and DH = 2 and NST = 10 and j = 0]
  have "m_stressXX (m_patches (addsrc exact example_owned 1 2 1 10 2 3 example_pd) 1) 13 20 4 = 96"
    "m_stressYY (m_patches (addsrc exact example_owned 1 2 1 10 2 3 example_pd) 1) 13 20 4 = 195"
    "m_stressZZ (m_patches (addsrc exact example_owned 1 2 1 10 2 3 example_pd) 1) 13 20 4 = 294"
    "m_stressXZ (m_patches (addsrc exact example_owned 1 2 1 10 2 3 example_pd) 1) 13 20 4 = 393"
    "m_stressYZ (m_patches (addsrc exact example_owned 1 2 1 10 2 3 example_pd) 1) 13 20 4 = 488"
    "m_stressXY (m_patches (addsrc exact example_owned 1 2 1 10 2 3 example_pd) 1) 13 20 4 = 587"
    unfolding alone [THEN conjunct1]
      alone [THEN conjunct2, THEN conjunct1]
      alone [THEN conjunct2, THEN conjunct2, THEN conjunct1]
      alone [THEN conjunct2, THEN conjunct2, THEN conjunct2, THEN conjunct1]
      alone [THEN conjunct2, THEN conjunct2, THEN conjunct2, THEN conjunct2, THEN conjunct1]
      alone [THEN conjunct2, THEN conjunct2, THEN conjunct2, THEN conjunct2, THEN conjunct2]
    by (simp_all add: exact_def example_pd_def)
  moreover have
    "m_stressXX (m_patches (addsrc exact example_owned 1 2 1 10 2 3 example_pd) 4) 11 22 7 = 91"
    "m_stressXY (m_patches (addsrc exact example_owned 1 2 1 10 2 3 example_pd) 4) 11 22 7 = 586"
    unfolding shared [THEN conjunct1]
      shared [THEN conjunct2, THEN conjunct2, THEN conjunct2, THEN conjunct2, THEN conjunct2,
        THEN conjunct1]
    by (simp_all add: exact_def example_pd_def)
  ultimately show ?thesis by (intro conjI)
qed

text \<open>C1 as stated, for every owned node, does not hold: the owned table may list two nodes
  at one location (the resolver copies a catalog node as often as the catalog has it), and
  the call then subtracts both samples. In the example the first and the third node share a
  location; the xx component goes from 100 to 91, where the formula gives 99 for the first
  node and 92 for the third.\<close>

theorem addsrc_shared_location_counterexample:
  "locate example_owned 3 example_pd 0 = (4, 11, 22, 7) \<and>
   locate example_owned 3 example_pd 2 = (4, 11, 22, 7) \<and>
   m_stressXX (m_patches example_pd 4) 11 22 7 = 100 \<and>
   m_stressXX (m_patches (addsrc exact example_owned 1 2 1 10 2 3 example_pd) 4) 11 22 7 = 91 \<and>
   fsub exact (m_stressXX (m_patches example_pd 4) 11 22 7)
     (fmul exact (fdiv exact 1 (fmul exact (fmul exact 2 2) 2))
        (the (m_ptAxx example_owned) ! (0 * 2 + 1))) = 99 \<and>
   fsub exact (m_stressXX (m_patches example_pd 4) 11 22 7)
     (fmul exact (fdiv exact 1 (fmul exact (fmul exact 2 2) 2))
        (the (m_ptAxx example_owned) ! (2 * 2 + 1))) = 92 \<and>
   m_stressXX (m_patches (addsrc exact example_owned 1 2 1 10 2 3 example_pd) 4) 11 22 7
     \<noteq> fsub exact (m_stressXX (m_patches example_pd 4) 11 22 7)
         (fmul exact (fdiv exact 1 (fmul exact (fmul exact 2 2) 2))
            (the (m_ptAxx example_owned) ! (0 * 2 + 1))) \<and>
   m_stressXX (m_patches (addsrc exact example_owned 1 2 1 10 2 3 example_pd) 4) 11 22 7
     \<noteq> fsub exact (m_stressXX (m_patches example_pd 4) 11 22 7)
         (fmul exact (fdiv exact 1 (fmul exact (fmul exact 2 2) 2))
            (the (m_ptAxx example_owned) ! (2 * 2 + 1)))"
proof -
  have i: "(0::int) \<le> 1" "(1::int) < 2" by simp_all
  have p: "m_ptpSrc example_owned = Some [2, 3, 5, 4, 1, 2, 2, 3, 5]"
    by (simp add: example_owned_def)
  note s = addsrc_at_location [OF i p refl example_sites(2) [symmetric],
      where u = exact and DT = 1 and DH = 2 and NST = 10]
  have v: "m_stressXX (m_patches (addsrc exact example_owned 1 2 1 10 2 3 example_pd) 4) 11 22 7 = 91"
    using s by (simp add: stress_def exact_def example_pd_def example_owned_def)
  have l: "locate example_owned 3 example_pd 0 = (4, 11, 22, 7)"
    "locate example_owned 3 example_pd 2 = (4, 11, 22, 7)"
    by (simp_all add: locate_def example_owned_def example_pd_def)
  have f: "m_stressXX (m_patches example_pd 4) 11 22 7 = 100"
    "fsub exact (m_stressXX (m_patches example_pd 4) 11 22 7)
     (fmul exact (fdiv exact 1 (fmul exact (fmul exact 2 2) 2))
        (the (m_ptAxx example_owned) ! (0 * 2 + 1))) = 99"
    "fsub exact (m_stressXX (m_patches example_pd 4) 11 22 7)
     (fmul exact (fdiv exact 1 (fmul exact (fmul exact 2 2) 2))
        (the (m_ptAxx example_owned) ! (2 * 2 + 1))) = 92"
    by (simp_all add: exact_def example_pd_def example_owned_def)
  have n: "m_stressXX (m_patches (addsrc exact example_owned 1 2 1 10 2 3 example_pd) 4) 11 22 7
     \<noteq> fsub exact (m_stressXX (m_patches example_pd 4) 11 22 7)
         (fmul exact (fdiv exact 1 (fmul exact (fmul exact 2 2) 2))
            (the (m_ptAxx example_owned) ! (0 * 2 + 1)))"
    "m_stressXX (m_patches (addsrc exact example_owned 1 2 1 10 2 3 example_pd) 4) 11 22 7
     \<noteq> fsub exact (m_stressXX (m_patches example_pd 4) 11 22 7)
         (fmul exact (fdiv exact 1 (fmul exact (fmul exact 2 2) 2))
            (the (m_ptAxx example_owned) ! (2 * 2 + 1)))"
    unfolding v f(2) f(3) by simp_all
  show ?thesis
    by (intro conjI) (rule l(1), rule l(2), rule f(1), rule v, rule f(2), rule f(3), rule n(1), rule n(2))
qed

section \<open>Early exits\<close>

text \<open>C9. With a node count below 1, \<open>inisource\<close> returns 0 at once: it makes no call
  at all (no allocation, no \<open>fopen\<close>, no read) and stores through none of its output
  pointers.\<close>

theorem no_nodes_no_effect:
  "NSRC < 1 \<Longrightarrow>
     inisource e IFAULT NSRC READ_STEP NST maxdim NZ INSRC INSRC_I2 out
       = Some \<lparr>ret = 0, outs = out, trace = []\<rparr>"
  by (simp add: inisource_def)

theorem no_nodes_no_effect_witness:
  "(0::int) < 1 \<and> inisource example_env 1 0 2 2 3 5 ''source'' [] example_this
       = Some \<lparr>ret = 0, outs = example_this, trace = []\<rparr>"
  using no_nodes_no_effect [of 0 example_env 1 2 2 3 5 "''source''" "[]" example_this] by simp



text \<open>C10. On both early exits (node count below 1; \<open>fopen\<close> fails in mode 0 or 1)
  \<open>inisource\<close> returns 0 and leaves its nine output parameters as they were, so the members
  of the constructed object keep their previous values; a load whose file opens returns 0
  as well.\<close>

theorem early_exits_return_zero:
  "(NSRC < 1 \<longrightarrow>
      map_option ret (inisource e IFAULT NSRC READ_STEP NST maxdim NZ INSRC INSRC_I2 out) = Some 0 \<and>
      map_option outs (inisource e IFAULT NSRC READ_STEP NST maxdim NZ INSRC INSRC_I2 out) = Some out \<and>
      Sources e IFAULT NSRC READ_STEP NST NZ nxt nyt nzt INSRC INSRC_I2 out = Some out) \<and>
   (1 \<le> NSRC \<and> (IFAULT = 0 \<or> IFAULT = 1) \<and> fopen e INSRC = None \<longrightarrow>
      map_option ret (inisource e IFAULT NSRC READ_STEP NST maxdim NZ INSRC INSRC_I2 out) = Some 0 \<and>
      map_option outs (inisource e IFAULT NSRC READ_STEP NST maxdim NZ INSRC INSRC_I2 out) = Some out \<and>
      Sources e IFAULT NSRC READ_STEP NST NZ nxt nyt nzt INSRC INSRC_I2 out = Some out) \<and>
   (1 \<le> NSRC \<and> (IFAULT = 0 \<or> IFAULT = 1) \<and> fopen e INSRC \<noteq> None \<longrightarrow>
      map_option ret (inisource e IFAULT NSRC READ_STEP NST maxdim NZ INSRC INSRC_I2 out) = Some 0)"
  by (auto simp: inisource_def Sources_def Let_def split: prod.splits)

theorem early_exits_return_zero_witness:
  "map_option ret (inisource example_env 0 0 1 2 3 5 ''source'' [] example_this) = Some 0 \<and>
   map_option outs (inisource example_env 0 0 1 2 3 5 ''source'' [] example_this)
     = Some example_this \<and>
   fopen example_env ''absent'' = None \<and>
   map_option ret (inisource example_env 0 2 1 2 3 5 ''absent'' [] example_this) = Some 0 \<and>
   Sources example_env 0 2 1 2 5 4 4 5 ''absent'' [] example_this = Some example_this \<and>
   fopen example_env ''source'' \<noteq> None \<and>
   map_option ret (inisource example_env 0 2 1 2 3 5 ''source'' [] example_this) = Some 0"
  using
    early_exits_return_zero [of 0 example_env 0 1 2 3 5 "''source''" "[]" example_this 4 4 5]
    early_exits_return_zero [of 2 example_env 0 1 2 3 5 "''absent''" "[]" example_this 4 4 5]
    early_exits_return_zero [of 2 example_env 0 1 2 3 5 "''source''" "[]" example_this 4 4 5]
  by (simp add: example_env_def)

text \<open>C8. A file that cannot be opened: the message is printed and \<open>inisource\<close> returns
  before any read, with its outputs untouched, but the value returned is 0, which is also
  what a load of an existing file returns. The doc comment of \<open>inisource\<close> promises \<open>-1\<close>
  for an error on the input file.\<close>

theorem open_failure_returns_success_code:
  "inisource example_env 1 2 1 2 3 5 ''absent'' [] example_this
     = Some \<lparr>ret = 0, outs = example_this,
             trace = [Ev_Alloc1P 6, Ev_Alloc1D 2, Ev_Alloc1D 2, Ev_Alloc1D 2, Ev_Alloc1D 2,
                      Ev_Alloc1D 2, Ev_Alloc1D 2, Ev_fopen ''absent'', Ev_Alloc1D 12,
                      Ev_printf (cant_open ''absent'')]\<rparr>
   \<and> map_option ret (inisource example_env 1 2 1 2 3 5 ''source'' [] example_this) = Some 0"
  by code_simp

end
